theory Spec2Isabelle
  imports Complex_Main
begin

section \<open>Python values\<close>

text \<open>
  Python integers are \<open>int\<close>. An exception is a value of \<open>py_error\<close>; a function that can
  raise returns \<open>py_error + 'a\<close>.
\<close>

datatype py_error = ZeroDivisionError | OverflowError | ValueError | IndexError

text \<open>
  Measured angles, time stamps and the metrics computed from them are kept as reals.
  Python's \<^verbatim>\<open>x / y\<close> on such numbers raises when the divisor is zero.
\<close>

definition truediv :: "real \<Rightarrow> real \<Rightarrow> py_error + real" where
  "truediv x y = (if y = 0 then Inl ZeroDivisionError else Inr (x / y))"

text \<open>Python's \<^verbatim>\<open>int(x)\<close> on such a number: truncation towards zero.\<close>

definition py_int :: "real \<Rightarrow> int" where
  "py_int x = (if 0 \<le> x then \<lfloor>x\<rfloor> else \<lceil>x\<rceil>)"

subsection \<open>Floats of the controller\<close>

text \<open>
  The controller's arithmetic is on Python floats with their special values: a float is a
  finite number, an infinity or NaN (the sign of zero is not kept; no modelled operation
  depends on it). The rounding of an exact result to a float is a parameter \<open>rnd\<close> of every
  operation that rounds, so that what is proved holds for the rounding of the machine,
  overflow to an infinity included. A float literal \<^verbatim>\<open>0.8\<close> is \<open>rnd 0.8\<close>; an integer
  literal is exact.
\<close>

datatype pyfloat = Fin real | PInf | NInf | NaN

fun fneg :: "pyfloat \<Rightarrow> pyfloat" where
  "fneg (Fin x) = Fin (- x)"
| "fneg PInf = NInf"
| "fneg NInf = PInf"
| "fneg NaN = NaN"

fun fabs :: "pyfloat \<Rightarrow> pyfloat" where
  "fabs (Fin x) = Fin \<bar>x\<bar>"
| "fabs PInf = PInf"
| "fabs NInf = PInf"
| "fabs NaN = NaN"

fun fadd :: "(real \<Rightarrow> pyfloat) \<Rightarrow> pyfloat \<Rightarrow> pyfloat \<Rightarrow> pyfloat" where
  "fadd rnd (Fin x) (Fin y) = rnd (x + y)"
| "fadd rnd NaN b = NaN"
| "fadd rnd a NaN = NaN"
| "fadd rnd PInf NInf = NaN"
| "fadd rnd NInf PInf = NaN"
| "fadd rnd PInf b = PInf"
| "fadd rnd a PInf = PInf"
| "fadd rnd NInf b = NInf"
| "fadd rnd a NInf = NInf"

definition fsub :: "(real \<Rightarrow> pyfloat) \<Rightarrow> pyfloat \<Rightarrow> pyfloat \<Rightarrow> pyfloat" where
  "fsub rnd a b = fadd rnd a (fneg b)"

text \<open>An infinity times a finite number: NaN for zero, else an infinity of the product's sign.\<close>

definition inf_times :: "bool \<Rightarrow> real \<Rightarrow> pyfloat" where
  "inf_times positive x =
     (if x = 0 then NaN else if (0 < x) = positive then PInf else NInf)"

fun fmul :: "(real \<Rightarrow> pyfloat) \<Rightarrow> pyfloat \<Rightarrow> pyfloat \<Rightarrow> pyfloat" where
  "fmul rnd (Fin x) (Fin y) = rnd (x * y)"
| "fmul rnd NaN b = NaN"
| "fmul rnd a NaN = NaN"
| "fmul rnd PInf (Fin y) = inf_times True y"
| "fmul rnd NInf (Fin y) = inf_times False y"
| "fmul rnd (Fin x) PInf = inf_times True x"
| "fmul rnd (Fin x) NInf = inf_times False x"
| "fmul rnd PInf PInf = PInf"
| "fmul rnd NInf NInf = PInf"
| "fmul rnd PInf NInf = NInf"
| "fmul rnd NInf PInf = NInf"

text \<open>Python's \<^verbatim>\<open>a / b\<close> on floats raises for a zero divisor, whatever the dividend.\<close>

fun fdiv :: "(real \<Rightarrow> pyfloat) \<Rightarrow> pyfloat \<Rightarrow> pyfloat \<Rightarrow> py_error + pyfloat" where
  "fdiv rnd a (Fin y) =
     (if y = 0 then Inl ZeroDivisionError
      else case a of
             Fin x \<Rightarrow> Inr (rnd (x / y))
           | PInf \<Rightarrow> Inr (if 0 < y then PInf else NInf)
           | NInf \<Rightarrow> Inr (if 0 < y then NInf else PInf)
           | NaN \<Rightarrow> Inr NaN)"
| "fdiv rnd a NaN = Inr NaN"
| "fdiv rnd (Fin x) b = Inr (Fin 0)"
| "fdiv rnd a b = Inr NaN"

text \<open>The comparisons \<^verbatim>\<open>a < b\<close>, \<^verbatim>\<open>a > b\<close> and \<^verbatim>\<open>a <= b\<close>: false when an operand is NaN.\<close>

fun flt :: "pyfloat \<Rightarrow> pyfloat \<Rightarrow> bool" where
  "flt (Fin x) (Fin y) = (x < y)"
| "flt NaN b = False"
| "flt a NaN = False"
| "flt a NInf = False"
| "flt PInf b = False"
| "flt NInf b = True"
| "flt a PInf = True"

definition fgt :: "pyfloat \<Rightarrow> pyfloat \<Rightarrow> bool" where
  "fgt a b = flt b a"

fun fle :: "pyfloat \<Rightarrow> pyfloat \<Rightarrow> bool" where
  "fle (Fin x) (Fin y) = (x \<le> y)"
| "fle NaN b = False"
| "fle a NaN = False"
| "fle NInf b = True"
| "fle a PInf = True"
| "fle a NInf = False"
| "fle PInf b = False"

text \<open>Python's \<^verbatim>\<open>int(x)\<close> on a float raises for an infinity and for NaN.\<close>

fun py_int_float :: "pyfloat \<Rightarrow> py_error + int" where
  "py_int_float (Fin x) = Inr (py_int x)"
| "py_int_float PInf = Inl OverflowError"
| "py_int_float NInf = Inl OverflowError"
| "py_int_float NaN = Inl ValueError"

text \<open>
  Python's \<^verbatim>\<open>min(a, b)\<close> and \<^verbatim>\<open>max(a, b)\<close>: the first argument is kept unless the second
  is smaller (larger).
\<close>

definition py_min :: "pyfloat \<Rightarrow> pyfloat \<Rightarrow> pyfloat" where
  "py_min a b = (if flt b a then b else a)"

definition py_max :: "pyfloat \<Rightarrow> pyfloat \<Rightarrow> pyfloat" where
  "py_max a b = (if fgt b a then b else a)"

text \<open>
  A rounding for examples: an exact result within the range of doubles is kept as it is,
  and one at or beyond the overflow threshold \<open>2^1024 - 2^970\<close> becomes an infinity. It
  agrees with the machine whenever the exact result is a double or overflows.
\<close>

definition no_rounding :: "real \<Rightarrow> pyfloat" where
  "no_rounding x =
     (if 2 ^ 1024 - 2 ^ 970 \<le> x then PInf
      else if x \<le> - (2 ^ 1024 - 2 ^ 970) then NInf
      else Fin x)"

subsection \<open>The clock\<close>

text \<open>
  \<^verbatim>\<open>utime.ticks_ms()\<close> is an input of the model (an \<open>int\<close> passed to each operation that
  reads the clock). \<^verbatim>\<open>utime.ticks_diff\<close> is the library's wrap-around difference of two
  tick values, with the period of the MicroPython ports.
\<close>

definition TICKS_PERIOD :: int where
  "TICKS_PERIOD = 2 ^ 30"

definition ticks_diff :: "int \<Rightarrow> int \<Rightarrow> int" where
  "ticks_diff t1 t2 =
     (t1 - t2 + TICKS_PERIOD div 2) mod TICKS_PERIOD - TICKS_PERIOD div 2"

section \<open>encoder\_reader.py: class EncoderReader\<close>

text \<open>
  The pin objects are not part of the state: the levels the handler reads from
  \<^verbatim>\<open>hall_a.value()\<close> and \<^verbatim>\<open>hall_b.value()\<close> are arguments (\<open>True\<close> is level 1).
\<close>

record EncoderReader =
  ppr :: int
  gear_ratio :: int
  total_ppr :: int
  count :: int
  last_count :: int
  total_count :: int
  overflow_count :: int
  enc_last_time :: int
  speed :: real
  angle_speed :: real
  last_a_state :: bool
  last_b_state :: bool

text \<open>
  \<^verbatim>\<open>__init__(hall_a_pin, hall_b_pin, ppr, gear_ratio)\<close>; \<open>a0\<close>, \<open>b0\<close> are the pin levels
  and \<open>now\<close> the clock read by the constructor. No argument is checked.
\<close>

definition EncoderReader_init :: "bool \<Rightarrow> bool \<Rightarrow> int \<Rightarrow> int \<Rightarrow> int \<Rightarrow> EncoderReader" where
  "EncoderReader_init a0 b0 now ppr0 gear_ratio0 =
     \<lparr>ppr = ppr0, gear_ratio = gear_ratio0, total_ppr = ppr0 * gear_ratio0,
      count = 0, last_count = 0, total_count = 0, overflow_count = 0,
      enc_last_time = now, speed = 0, angle_speed = 0,
      last_a_state = a0, last_b_state = b0\<rparr>"

text \<open>\<^verbatim>\<open>_encoder_irq\<close>: one edge event, the handler reading the levels \<open>current_a\<close>, \<open>current_b\<close>.\<close>

definition encoder_irq :: "bool \<Rightarrow> bool \<Rightarrow> EncoderReader \<Rightarrow> EncoderReader" where
  "encoder_irq current_a current_b e =
     (let c =
        (if current_a \<noteq> last_a_state e then
           (if current_a \<noteq> current_b then count e + 1 else count e - 1)
         else if current_b \<noteq> last_b_state e then
           (if current_b = current_a then count e + 1 else count e - 1)
         else count e)
      in e\<lparr>count := c, last_a_state := current_a, last_b_state := current_b,
           total_count := total_count e + 1\<rparr>)"

text \<open>A sequence of edge events, each given by the levels (A, B) the handler reads.\<close>

fun run_irq :: "(bool \<times> bool) list \<Rightarrow> EncoderReader \<Rightarrow> EncoderReader" where
  "run_irq [] e = e"
| "run_irq ((a, b) # evs) e = run_irq evs (encoder_irq a b e)"

text \<open>
  A 2-bit phase value decoded into pin levels (A, B): \<open>phase_AB\<close> reads the phase as the
  bits A then B (A the high bit), \<open>phase_BA\<close> as B then A (A the low bit).
\<close>

definition phase_AB :: "nat \<Rightarrow> bool \<times> bool" where
  "phase_AB p = (p div 2 mod 2 = 1, p mod 2 = 1)"

definition phase_BA :: "nat \<Rightarrow> bool \<times> bool" where
  "phase_BA p = (p mod 2 = 1, p div 2 mod 2 = 1)"

definition reset_encoder :: "EncoderReader \<Rightarrow> EncoderReader" where
  "reset_encoder e =
     e\<lparr>count := 0, total_count := 0, overflow_count := 0, last_count := 0,
       speed := 0, angle_speed := 0\<rparr>"

definition get_angle :: "EncoderReader \<Rightarrow> py_error + real" where
  "get_angle e =
     (case truediv (real_of_int (count e)) (real_of_int (total_ppr e)) of
        Inl err \<Rightarrow> Inl err
      | Inr q \<Rightarrow> Inr (q * 360))"

section \<open>newTemp/N-meas.py: the table-driven handler\<close>

text \<open>The globals \<^verbatim>\<open>count\<close> and \<^verbatim>\<open>prev\<close> of the script.\<close>

record N_meas =
  nm_count :: int
  nm_prev :: nat

definition lookup :: "int list" where
  "lookup = [0, 1, - 1, 0,
             - 1, 0, 0, 1,
             1, 0, 0, - 1,
             0, - 1, 1, 0]"

text \<open>\<^verbatim>\<open>(pinA.value() << 1) | pinB.value()\<close> for the levels read.\<close>

definition phase_of :: "bool \<Rightarrow> bool \<Rightarrow> nat" where
  "phase_of a b = or (push_bit 1 (of_bool a)) (of_bool b)"

definition N_meas_init :: "bool \<Rightarrow> bool \<Rightarrow> N_meas" where
  "N_meas_init a0 b0 = \<lparr>nm_count = 0, nm_prev = phase_of a0 b0\<rparr>"

text \<open>\<^verbatim>\<open>irq_handler\<close> reading the levels \<open>a\<close>, \<open>b\<close>; a list index out of range raises.\<close>

definition irq_handler :: "bool \<Rightarrow> bool \<Rightarrow> N_meas \<Rightarrow> py_error + N_meas" where
  "irq_handler a b s =
     (let curr = phase_of a b;
          idx = or (push_bit 2 (nm_prev s)) curr
      in if idx < length lookup
         then Inr \<lparr>nm_count = nm_count s + lookup ! idx, nm_prev = curr\<rparr>
         else Inl IndexError)"

fun run_handler :: "(bool \<times> bool) list \<Rightarrow> N_meas \<Rightarrow> py_error + N_meas" where
  "run_handler [] s = Inr s"
| "run_handler ((a, b) # evs) s =
     (case irq_handler a b s of Inl err \<Rightarrow> Inl err | Inr s' \<Rightarrow> run_handler evs s')"

section \<open>pid\_controller.py: class PIDController\<close>

text \<open>The attribute \<^verbatim>\<open>output\<close> is the field \<open>output_value\<close> (\<open>output\<close> is reserved).\<close>

record PIDController =
  kp :: pyfloat
  ki :: pyfloat
  kd :: pyfloat
  setpoint :: pyfloat
  output_min :: pyfloat
  output_max :: pyfloat
  sample_time :: pyfloat
  last_error :: pyfloat
  integral :: pyfloat
  last_time :: int
  output_value :: pyfloat
  error :: pyfloat
  p_term :: pyfloat
  i_term :: pyfloat
  d_term :: pyfloat
  integral_limit :: pyfloat
  derivative_filter_alpha :: pyfloat
  last_derivative :: pyfloat

text \<open>
  \<^verbatim>\<open>__init__(kp, ki, kd, setpoint, output_min, output_max, sample_time)\<close>; \<open>now\<close> is the
  clock read by the constructor. No argument is checked.
\<close>

definition PIDController_init ::
  "(real \<Rightarrow> pyfloat) \<Rightarrow> pyfloat \<Rightarrow> pyfloat \<Rightarrow> pyfloat \<Rightarrow> pyfloat \<Rightarrow> pyfloat \<Rightarrow> pyfloat \<Rightarrow> pyfloat \<Rightarrow> int
     \<Rightarrow> PIDController" where
  "PIDController_init rnd kp0 ki0 kd0 setpoint0 output_min0 output_max0 sample_time0 now =
     \<lparr>kp = kp0, ki = ki0, kd = kd0, setpoint = setpoint0,
      output_min = output_min0, output_max = output_max0, sample_time = sample_time0,
      last_error = Fin 0, integral = Fin 0, last_time = now, output_value = Fin 0,
      error = Fin 0, p_term = Fin 0, i_term = Fin 0, d_term = Fin 0,
      integral_limit = fmul rnd output_max0 (rnd 0.8),
      derivative_filter_alpha = rnd 0.1, last_derivative = Fin 0\<rparr>"

text \<open>
  \<^verbatim>\<open>update(current_value)\<close> with the clock reading \<open>current_time\<close>. The result is the
  controller after the call and either the returned output or the exception raised. Each
  assignment to an attribute is a primed value, written into the controller at the end;
  when the division of the derivative term raises, the assignments made before it stay.
\<close>

definition update ::
  "(real \<Rightarrow> pyfloat) \<Rightarrow> int \<Rightarrow> pyfloat \<Rightarrow> PIDController \<Rightarrow> PIDController \<times> (py_error + pyfloat)" where
  "update rnd current_time current_value p =
     (case py_int_float (fmul rnd (sample_time p) (Fin 1000)) of
        Inl err \<Rightarrow> (p, Inl err)
      | Inr threshold \<Rightarrow>
          if ticks_diff current_time (last_time p) < threshold
          then (p, Inr (output_value p))
          else
            let error' = fsub rnd (setpoint p) current_value;
                p_term' = fmul rnd (kp p) error';
                integral0 = fadd rnd (integral p) (fmul rnd error' (sample_time p));
                integral' =
                  (if fgt integral0 (integral_limit p) then integral_limit p
                   else if flt integral0 (fneg (integral_limit p)) then fneg (integral_limit p)
                   else integral0);
                i_term' = fmul rnd (ki p) integral'
            in case fdiv rnd (fsub rnd error' (last_error p)) (sample_time p) of
                 Inl err \<Rightarrow>
                   (p\<lparr>error := error', p_term := p_term', integral := integral',
                      i_term := i_term'\<rparr>, Inl err)
               | Inr derivative \<Rightarrow>
                   let filtered_derivative =
                         fadd rnd (fmul rnd (derivative_filter_alpha p) derivative)
                           (fmul rnd (fsub rnd (Fin 1) (derivative_filter_alpha p))
                              (last_derivative p));
                       d_term' = fmul rnd (kd p) filtered_derivative;
                       output0 = fadd rnd (fadd rnd p_term' i_term') d_term';
                       output' =
                         (if fgt output0 (output_max p) then output_max p
                          else if flt output0 (output_min p) then output_min p
                          else output0)
                   in (p\<lparr>error := error', p_term := p_term', integral := integral',
                         i_term := i_term', d_term := d_term',
                         last_derivative := filtered_derivative, output_value := output',
                         last_error := error', last_time := current_time\<rparr>,
                       Inr output'))"

definition set_tunings :: "pyfloat \<Rightarrow> pyfloat \<Rightarrow> pyfloat \<Rightarrow> PIDController \<Rightarrow> PIDController" where
  "set_tunings kp' ki' kd' p = p\<lparr>kp := kp', ki := ki', kd := kd'\<rparr>"

definition set_setpoint :: "pyfloat \<Rightarrow> PIDController \<Rightarrow> PIDController" where
  "set_setpoint sp p = p\<lparr>setpoint := sp, integral := Fin 0\<rparr>"

text \<open>\<^verbatim>\<open>reset()\<close>, reading the clock \<open>now\<close>.\<close>

definition reset :: "int \<Rightarrow> PIDController \<Rightarrow> PIDController" where
  "reset now p =
     p\<lparr>last_error := Fin 0, integral := Fin 0, last_time := now, output_value := Fin 0,
       last_derivative := Fin 0\<rparr>"

text \<open>
  The calls a client can make on a controller, and a sequence of them run on one controller.
  A caller that catches the exception of an \<open>update\<close> goes on with the controller as the
  failed call left it.
\<close>

datatype pid_op =
  Update int pyfloat
| SetTunings pyfloat pyfloat pyfloat
| SetSetpoint pyfloat
| Reset int

fun apply_pid_op :: "(real \<Rightarrow> pyfloat) \<Rightarrow> pid_op \<Rightarrow> PIDController \<Rightarrow> PIDController" where
  "apply_pid_op rnd (Update now x) p = fst (update rnd now x p)"
| "apply_pid_op rnd (SetTunings a b c) p = set_tunings a b c p"
| "apply_pid_op rnd (SetSetpoint sp) p = set_setpoint sp p"
| "apply_pid_op rnd (Reset now) p = reset now p"

fun run_pid_ops :: "(real \<Rightarrow> pyfloat) \<Rightarrow> pid_op list \<Rightarrow> PIDController \<Rightarrow> PIDController" where
  "run_pid_ops rnd [] p = p"
| "run_pid_ops rnd (c # cs) p = run_pid_ops rnd cs (apply_pid_op rnd c p)"


section \<open>pid\_controller.py: PIDTuner.\_analyze\_step\_response\<close>

text \<open>A recorded data point of \<^verbatim>\<open>auto_tune_step_response\<close> (a dict in the source).\<close>

record data_point =
  dp_time :: real
  dp_setpoint :: real
  dp_actual :: real
  dp_error :: pyfloat
  dp_output :: pyfloat

text \<open>Python's slice \<^verbatim>\<open>xs[i:]\<close>: a negative start counts from the end.\<close>

definition slice_from :: "int \<Rightarrow> 'a list \<Rightarrow> 'a list" where
  "slice_from i xs =
     (if i < 0 then drop (nat (max 0 (int (length xs) + i))) xs else drop (nat i) xs)"

text \<open>Truthiness of a value that is \<^verbatim>\<open>None\<close> or a float: \<^verbatim>\<open>None\<close> and \<^verbatim>\<open>0.0\<close> are false.\<close>

definition truthy :: "real option \<Rightarrow> bool" where
  "truthy v = (case v of None \<Rightarrow> False | Some t \<Rightarrow> t \<noteq> 0)"

text \<open>
  The loop over the data that records \<^verbatim>\<open>rise_start\<close> and \<^verbatim>\<open>rise_end\<close> and breaks at the
  first point at or above ninety percent.
\<close>

fun rise_scan ::
  "data_point list \<Rightarrow> real \<Rightarrow> real \<Rightarrow> real option \<Rightarrow> real option \<Rightarrow> real option \<times> real option" where
  "rise_scan [] ten_percent ninety_percent rise_start rise_end = (rise_start, rise_end)"
| "rise_scan (d # ds) ten_percent ninety_percent rise_start rise_end =
     (let rise_start' =
            (if rise_start = None \<and> dp_actual d \<ge> ten_percent
             then Some (dp_time d) else rise_start)
      in if rise_end = None \<and> dp_actual d \<ge> ninety_percent
         then (rise_start', Some (dp_time d))
         else rise_scan ds ten_percent ninety_percent rise_start' rise_end)"

text \<open>
  The source prints the metrics and returns nothing; the model returns them. \<open>Inr None\<close>
  is the early return on empty data.
\<close>

record analysis =
  steady_state_value :: real
  an_overshoot :: real
  an_steady_state_error :: real
  an_rise_time :: "real option"

definition analyze_step_response :: "data_point list \<Rightarrow> py_error + analysis option" where
  "analyze_step_response data =
     (if data = [] then Inr None
      else
        let steady_state_size = int (length data) div 10;
            steady_state_values = map dp_actual (slice_from (- steady_state_size) data)
        in case truediv (sum_list steady_state_values) (real (length steady_state_values)) of
             Inl err \<Rightarrow> Inl err
           | Inr ssv \<Rightarrow>
               let max_value = Max (set (map dp_actual data));
                   target_value = dp_setpoint (hd data);
                   overshoot =
                     (if target_value \<noteq> 0
                      then ((max_value - target_value) / target_value) * 100 else 0);
                   ten_percent = target_value * 0.1;
                   ninety_percent = target_value * 0.9;
                   (rise_start, rise_end) = rise_scan data ten_percent ninety_percent None None;
                   rise_time =
                     (if truthy rise_start \<and> truthy rise_end
                      then Some (the rise_end - the rise_start) else None)
               in Inr (Some \<lparr>steady_state_value = ssv, an_overshoot = overshoot,
                              an_steady_state_error = \<bar>target_value - ssv\<bar>,
                              an_rise_time = rise_time\<rparr>))"

text \<open>What a tuning experiment sends to the motor driver.\<close>

datatype motor_cmd = SetSpeed pyfloat | Stop

section \<open>pid\_controller.py: PIDTuner.auto\_tune\_step\_response\<close>

text \<open>
  What one pass of the \<^verbatim>\<open>while\<close> loop reads from its environment: the clock in the loop
  test, the encoder count at \<^verbatim>\<open>get_angle()\<close>, the clock for the recorded time and the
  clock inside \<^verbatim>\<open>pid.update\<close>.
\<close>

record tune_env =
  te_loop_time :: int
  te_count :: int
  te_record_time :: int
  te_update_time :: int

record tune_loop =
  tl_pid :: PIDController
  tl_data :: "data_point list"
  tl_motor :: "motor_cmd list"

text \<open>
  The \<^verbatim>\<open>while\<close> loop. It runs as long as the clock says so; the result is \<open>None\<close> when the
  readings given run out before the loop test fails.
\<close>

fun tune_cycles ::
  "(real \<Rightarrow> pyfloat) \<Rightarrow> EncoderReader \<Rightarrow> int \<Rightarrow> int \<Rightarrow> real \<Rightarrow> tune_env list \<Rightarrow> tune_loop
     \<Rightarrow> motor_cmd list \<times> (py_error + tune_loop) option" where
  "tune_cycles rnd enc start_time limit target_angle [] s = (tl_motor s, None)"
| "tune_cycles rnd enc start_time limit target_angle (c # cs) s =
     (if ticks_diff (te_loop_time c) start_time < limit
      then
        (case get_angle (enc\<lparr>count := te_count c\<rparr>) of
           Inl err \<Rightarrow> (tl_motor s, Some (Inl err))
         | Inr current_angle \<Rightarrow>
             let current_time = real_of_int (ticks_diff (te_record_time c) start_time) / 1000
             in (case update rnd (te_update_time c) (Fin current_angle) (tl_pid s) of
                   (pid', Inl err) \<Rightarrow> (tl_motor s, Some (Inl err))
                 | (pid', Inr control_output) \<Rightarrow>
                     tune_cycles rnd enc start_time limit target_angle cs
                       \<lparr>tl_pid = pid',
                        tl_data = tl_data s @
                          [\<lparr>dp_time = current_time, dp_setpoint = target_angle,
                            dp_actual = current_angle, dp_error = error pid',
                            dp_output = control_output\<rparr>],
                        tl_motor = tl_motor s @ [SetSpeed control_output]\<rparr>))
      else (tl_motor s, Some (Inr s)))"

text \<open>
  \<^verbatim>\<open>auto_tune_step_response(motor, encoder, step_size, duration)\<close> of a tuner holding the
  controller \<open>pid\<close>; \<open>start_time\<close> is the clock reading before the loop. The result is every
  call made on the motor, in order, and the data points returned or the exception raised.
\<close>

definition auto_tune_step_response ::
  "(real \<Rightarrow> pyfloat) \<Rightarrow> PIDController \<Rightarrow> EncoderReader \<Rightarrow> int \<Rightarrow> tune_env list \<Rightarrow> real \<Rightarrow> real
     \<Rightarrow> motor_cmd list \<times> (py_error + data_point list) option" where
  "auto_tune_step_response rnd pid enc start_time env step_size duration =
     (case get_angle enc of
        Inl err \<Rightarrow> ([], Some (Inl err))
      | Inr initial_angle \<Rightarrow>
          let target_angle = initial_angle + step_size;
              pid' = set_setpoint (Fin target_angle) pid;
              limit = py_int (duration * 1000)
          in case tune_cycles rnd enc start_time limit target_angle env
                    \<lparr>tl_pid = pid', tl_data = [], tl_motor = []\<rparr> of
               (motor, None) \<Rightarrow> (motor, None)
             | (motor, Some (Inl err)) \<Rightarrow> (motor, Some (Inl err))
             | (motor, Some (Inr s)) \<Rightarrow>
                 (case analyze_step_response (tl_data s) of
                    Inl err \<Rightarrow> (motor @ [Stop], Some (Inl err))
                  | Inr a \<Rightarrow> (motor @ [Stop], Some (Inr (tl_data s)))))"

section \<open>pid\_tuning\_guide.py: class PIDTuningWizard\<close>

text \<open>A recorded sample of \<^verbatim>\<open>step_test\<close> (a dict in the source).\<close>

record point =
  pt_time :: real
  pt_angle :: real
  pt_error :: pyfloat
  pt_output :: pyfloat

definition calculate_rise_time :: "point list \<Rightarrow> real \<Rightarrow> real option" where
  "calculate_rise_time data target =
     (if data = [] then None
      else
        let ten_percent = target * 0.1;
            ninety_percent = target * 0.9;
            rise_start_time = map_option pt_time (find (\<lambda>p. pt_angle p \<ge> ten_percent) data)
        in case find (\<lambda>p. pt_angle p \<ge> ninety_percent) data of
             None \<Rightarrow> None
           | Some p \<Rightarrow>
               (if truthy rise_start_time then Some (pt_time p - the rise_start_time)
                else None))"

text \<open>
  The loop \<^verbatim>\<open>for i in range(len(data)-1, 0, -1)\<close> of \<^verbatim>\<open>_calculate_settling_time\<close>, at
  index \<open>i\<close>; when the range is exhausted the function returns the last time. The
  parameter \<^verbatim>\<open>tolerance\<close> of the source is never read.
\<close>

fun settling_loop :: "point list \<Rightarrow> real \<Rightarrow> real \<Rightarrow> nat \<Rightarrow> real" where
  "settling_loop data target tolerance_band 0 = pt_time (last data)"
| "settling_loop data target tolerance_band (Suc k) =
     (if \<bar>pt_angle (data ! Suc k) - target\<bar> > tolerance_band
      then (if Suc k + 1 < length data then pt_time (data ! (Suc k + 1))
            else pt_time (last data))
      else settling_loop data target tolerance_band k)"

definition calculate_settling_time :: "point list \<Rightarrow> real \<Rightarrow> real option" where
  "calculate_settling_time data target =
     (if data = [] then None
      else
        let tolerance_band = target * 0.02
        in Some (settling_loop data target tolerance_band (length data - 1)))"

text \<open>
  What one cycle of the test loop reads from its environment: the encoder count at
  \<^verbatim>\<open>get_angle()\<close>, the clock inside \<^verbatim>\<open>pid.update\<close> and the clock when the sample is
  recorded.
\<close>

record cycle_env =
  ce_count :: int
  ce_update_time :: int
  ce_record_time :: int

text \<open>The local variables of \<^verbatim>\<open>step_test\<close> and the calls made on the motor, oldest first.\<close>

record step_loop =
  sl_pid :: PIDController
  sl_data :: "point list"
  sl_max_angle :: real
  sl_min_angle :: real
  sl_steady_state_errors :: "pyfloat list"
  sl_oscillation_count :: int
  sl_last_error_sign :: int
  sl_motor :: "motor_cmd list"

text \<open>One pass through the loop body; an exception leaves the loop.\<close>

definition step_cycle ::
  "(real \<Rightarrow> pyfloat) \<Rightarrow> EncoderReader \<Rightarrow> int \<Rightarrow> real \<Rightarrow> cycle_env \<Rightarrow> step_loop
     \<Rightarrow> py_error + step_loop" where
  "step_cycle rnd enc start_time test_time c s =
     (case get_angle (enc\<lparr>count := ce_count c\<rparr>) of
        Inl err \<Rightarrow> Inl err
      | Inr current_angle \<Rightarrow>
          (case update rnd (ce_update_time c) (Fin current_angle) (sl_pid s) of
             (pid', Inl err) \<Rightarrow> Inl err
           | (pid', Inr out) \<Rightarrow>
               let control_output = py_max (Fin (- 80)) (py_min (Fin 80) out);
                   motor' = sl_motor s @ [SetSpeed control_output];
                   current_time = real_of_int (ticks_diff (ce_record_time c) start_time) / 1000;
                   data' = sl_data s @
                     [\<lparr>pt_time = current_time, pt_angle = current_angle,
                       pt_error = error pid', pt_output = control_output\<rparr>];
                   max_angle' =
                     (if current_angle > sl_max_angle s then current_angle else sl_max_angle s);
                   min_angle' =
                     (if current_angle < sl_min_angle s then current_angle else sl_min_angle s);
                   current_error_sign = (if fgt (error pid') (Fin 0) then 1 else - 1);
                   oscillation_count' =
                     (if sl_last_error_sign s \<noteq> 0 \<and> current_error_sign \<noteq> sl_last_error_sign s
                      then sl_oscillation_count s + 1 else sl_oscillation_count s);
                   steady_state_errors' =
                     (if current_time > test_time - 1
                      then sl_steady_state_errors s @ [fabs (error pid')]
                      else sl_steady_state_errors s)
               in Inr \<lparr>sl_pid = pid', sl_data = data', sl_max_angle = max_angle',
                       sl_min_angle = min_angle',
                       sl_steady_state_errors = steady_state_errors',
                       sl_oscillation_count = oscillation_count',
                       sl_last_error_sign = current_error_sign, sl_motor = motor'\<rparr>))"

text \<open>
  The loop over the cycles. The result carries the motor calls made so far also when an
  exception ends the loop.
\<close>

fun step_cycles ::
  "(real \<Rightarrow> pyfloat) \<Rightarrow> EncoderReader \<Rightarrow> int \<Rightarrow> real \<Rightarrow> cycle_env list \<Rightarrow> step_loop
     \<Rightarrow> motor_cmd list \<times> (py_error + step_loop)" where
  "step_cycles rnd enc start_time test_time [] s = (sl_motor s, Inr s)"
| "step_cycles rnd enc start_time test_time (c # cs) s =
     (case step_cycle rnd enc start_time test_time c s of
        Inl err \<Rightarrow> (sl_motor s, Inl err)
      | Inr s' \<Rightarrow> step_cycles rnd enc start_time test_time cs s')"

record step_results =
  res_kp :: pyfloat
  res_ki :: pyfloat
  res_kd :: pyfloat
  max_angle :: real
  min_angle :: real
  overshoot :: real
  undershoot :: real
  final_error :: pyfloat
  steady_state_error :: pyfloat
  oscillation_count :: int
  rise_time :: "real option"
  settling_time :: "real option"
  res_data :: "point list"

text \<open>The overshoot and undershoot entries of the results dict.\<close>

definition overshoot_of :: "real \<Rightarrow> real \<Rightarrow> py_error + real" where
  "overshoot_of max_angle0 step_angle =
     (if max_angle0 > step_angle
      then (case truediv (max_angle0 - step_angle) step_angle of
              Inl err \<Rightarrow> Inl err | Inr q \<Rightarrow> Inr (q * 100))
      else Inr 0)"

definition undershoot_of :: "real \<Rightarrow> real \<Rightarrow> py_error + real" where
  "undershoot_of min_angle0 step_angle =
     (if min_angle0 < 0
      then (case truediv (step_angle - min_angle0) step_angle of
              Inl err \<Rightarrow> Inl err | Inr q \<Rightarrow> Inr (q * 100))
      else Inr 0)"

text \<open>\<^verbatim>\<open>sum(xs) / len(xs) if xs else 0\<close> on a list of floats; the sum starts from 0.\<close>

definition mean_or_zero :: "(real \<Rightarrow> pyfloat) \<Rightarrow> pyfloat list \<Rightarrow> py_error + pyfloat" where
  "mean_or_zero rnd xs =
     (if xs \<noteq> [] then fdiv rnd (foldl (fadd rnd) (Fin 0) xs) (Fin (real (length xs)))
      else Inr (Fin 0))"

text \<open>The results dict built after the loop, its entries evaluated in order.\<close>

definition make_results ::
  "(real \<Rightarrow> pyfloat) \<Rightarrow> pyfloat \<Rightarrow> pyfloat \<Rightarrow> pyfloat \<Rightarrow> real \<Rightarrow> step_loop \<Rightarrow> py_error + step_results" where
  "make_results rnd kp0 ki0 kd0 step_angle s =
     (case overshoot_of (sl_max_angle s) step_angle of
        Inl err \<Rightarrow> Inl err
      | Inr ov \<Rightarrow>
     (case undershoot_of (sl_min_angle s) step_angle of
        Inl err \<Rightarrow> Inl err
      | Inr un \<Rightarrow>
     (case mean_or_zero rnd (sl_steady_state_errors s) of
        Inl err \<Rightarrow> Inl err
      | Inr sse \<Rightarrow>
          Inr \<lparr>res_kp = kp0, res_ki = ki0, res_kd = kd0,
               max_angle = sl_max_angle s, min_angle = sl_min_angle s,
               overshoot = ov, undershoot = un,
               final_error =
                 (if sl_data s \<noteq> [] then fabs (pt_error (last (sl_data s))) else Fin 0),
               steady_state_error = sse,
               oscillation_count = sl_oscillation_count s,
               rise_time = calculate_rise_time (sl_data s) step_angle,
               settling_time = calculate_settling_time (sl_data s) step_angle,
               res_data = sl_data s\<rparr>)))"

text \<open>
  The local variables of \<^verbatim>\<open>step_test\<close> when the loop starts: the controller is
  constructed with the default limits and sample time and then reset. \<open>t_init\<close> and
  \<open>t_reset\<close> are the clock readings of the constructor and of \<^verbatim>\<open>reset()\<close>.
\<close>

definition step_start ::
  "(real \<Rightarrow> pyfloat) \<Rightarrow> pyfloat \<Rightarrow> pyfloat \<Rightarrow> pyfloat \<Rightarrow> real \<Rightarrow> int \<Rightarrow> int \<Rightarrow> step_loop" where
  "step_start rnd kp0 ki0 kd0 step_angle t_init t_reset =
     (let pid = PIDController_init rnd kp0 ki0 kd0 (Fin step_angle) (Fin (- 100)) (Fin 100)
                  (rnd 0.01) t_init;
          pid' = reset t_reset pid
      in \<lparr>sl_pid = pid', sl_data = [], sl_max_angle = 0, sl_min_angle = 0,
           sl_steady_state_errors = [], sl_oscillation_count = 0,
           sl_last_error_sign = 0, sl_motor = []\<rparr>)"

text \<open>
  \<^verbatim>\<open>step_test(kp, ki, kd, step_angle, test_time)\<close> on the wizard's encoder \<open>enc\<close>.
  \<open>start_time\<close> is the clock reading at the start of the test and \<open>env i\<close> is what cycle
  \<open>i\<close> reads. The result is every call made on the motor, in order, and the results dict
  or the exception that ended the test.
\<close>

definition step_test ::
  "(real \<Rightarrow> pyfloat) \<Rightarrow> EncoderReader \<Rightarrow> int \<Rightarrow> int \<Rightarrow> int \<Rightarrow> (nat \<Rightarrow> cycle_env) \<Rightarrow>
   pyfloat \<Rightarrow> pyfloat \<Rightarrow> pyfloat \<Rightarrow> real \<Rightarrow> real \<Rightarrow> motor_cmd list \<times> (py_error + step_results)" where
  "step_test rnd enc t_init t_reset start_time env kp0 ki0 kd0 step_angle test_time =
     (let enc' = reset_encoder enc;
          s0 = step_start rnd kp0 ki0 kd0 step_angle t_init t_reset;
          cycles = map env [0 ..< nat (py_int (test_time * 100))]
      in case step_cycles rnd enc' start_time test_time cycles s0 of
           (motor, Inl err) \<Rightarrow> (motor, Inl err)
         | (motor, Inr s) \<Rightarrow>
             (case make_results rnd kp0 ki0 kd0 step_angle s of
                Inl err \<Rightarrow> (motor @ [Stop], Inl err)
              | Inr r \<Rightarrow> (motor @ [Stop], Inr r)))"

text \<open>
  An environment for examples: cycle \<open>i\<close> reads the \<open>i\<close>-th count of a list and the clock
  advances by 10 ms per cycle.
\<close>

definition env_of_counts :: "int list \<Rightarrow> nat \<Rightarrow> cycle_env" where
  "env_of_counts cs i =
     \<lparr>ce_count = (if i < length cs then cs ! i else 0),
      ce_update_time = 10 * int i + 10, ce_record_time = 10 * int i + 10\<rparr>"

section \<open>The quadrature decoders\<close>

text \<open>
  What \<open>_encoder_irq\<close> does with the phase sequence 00, 01, 11, 10, 00 from both levels
  low: with the phase written A then B, as \<open>irq_handler\<close> reads it, the count changes by -4
  and for the reverse sequence by +4; with the phase written B then A the signs are
  exchanged. An edge event at which both levels have changed changes the count by +1 when
  the new levels differ and by -1 when they are equal.
\<close>

theorem decoder_cycle_counts:
  "\<not> last_a_state e \<Longrightarrow> \<not> last_b_state e \<Longrightarrow>
     count (run_irq (map phase_BA [1, 3, 2, 0]) e) = count e + 4
   \<and> count (run_irq (map phase_BA [2, 3, 1, 0]) e) = count e - 4
   \<and> count (run_irq (map phase_AB [1, 3, 2, 0]) e) = count e - 4
   \<and> count (run_irq (map phase_AB [2, 3, 1, 0]) e) = count e + 4
   \<and> (\<forall>d a b. a \<noteq> last_a_state d \<and> b \<noteq> last_b_state d \<longrightarrow>
         count (encoder_irq a b d) = (if a \<noteq> b then count d + 1 else count d - 1))"
  by (simp add: phase_BA_def phase_AB_def encoder_irq_def Let_def)

text \<open>
  The table-driven handler of \<open>N-meas.py\<close> does what its comment says: from phase 00 the
  sequence 00, 01, 11, 10, 00 adds 4, the reverse sequence subtracts 4, and an event at
  which both levels have changed leaves the count as it was.
\<close>

lemma phase_of_values:
  "phase_of False False = 0" "phase_of False True = 1"
  "phase_of True False = 2" "phase_of True True = 3"
  by (simp_all add: phase_of_def)

theorem irq_handler_counts:
  "nm_prev s = 0 \<Longrightarrow>
     (\<exists>s'. run_handler (map phase_AB [1, 3, 2, 0]) s = Inr s' \<and> nm_count s' = nm_count s + 4)
   \<and> (\<exists>s'. run_handler (map phase_AB [2, 3, 1, 0]) s = Inr s' \<and> nm_count s' = nm_count s - 4)
   \<and> (\<forall>d pa pb a b. nm_prev d = phase_of pa pb \<and> a \<noteq> pa \<and> b \<noteq> pb \<longrightarrow>
         (\<exists>d'. irq_handler a b d = Inr d' \<and> nm_count d' = nm_count d))"
proof (intro conjI allI impI)
  assume "nm_prev s = 0"
  then show "\<exists>s'. run_handler (map phase_AB [1, 3, 2, 0]) s = Inr s' \<and> nm_count s' = nm_count s + 4"
    by (simp add: phase_AB_def irq_handler_def phase_of_values lookup_def Let_def)
next
  assume "nm_prev s = 0"
  then show "\<exists>s'. run_handler (map phase_AB [2, 3, 1, 0]) s = Inr s' \<and> nm_count s' = nm_count s - 4"
    by (simp add: phase_AB_def irq_handler_def phase_of_values lookup_def Let_def)
next
  fix d :: N_meas and pa pb a b
  assume "nm_prev d = phase_of pa pb \<and> a \<noteq> pa \<and> b \<noteq> pb"
  then show "\<exists>d'. irq_handler a b d = Inr d' \<and> nm_count d' = nm_count d"
    by (cases pa; cases pb; cases a; cases b)
       (simp_all add: irq_handler_def phase_of_values lookup_def Let_def)
qed

text \<open>
  C1 (the code breaks it). From both levels low, one edge event at which both levels read
  high, a jump from phase 00 to phase 11: \<open>_encoder_irq\<close> changes the count by -1 where the
  claim, and \<open>irq_handler\<close> on the same event, give 0. On the forward sequence 00, 01, 11,
  10, 00 \<open>_encoder_irq\<close> ends at -4 where \<open>irq_handler\<close> ends at +4.
\<close>

theorem encoder_irq_jump_failing:
  "count (run_irq [phase_AB 3] (EncoderReader_init False False 0 11 30))
     - count (EncoderReader_init False False 0 11 30) = - 1
   \<and> run_handler [phase_AB 3] (N_meas_init False False) = Inr \<lparr>nm_count = 0, nm_prev = 3\<rparr>
   \<and> count (run_irq (map phase_AB [1, 3, 2, 0]) (EncoderReader_init False False 0 11 30)) = - 4
   \<and> run_handler (map phase_AB [1, 3, 2, 0]) (N_meas_init False False)
       = Inr \<lparr>nm_count = 4, nm_prev = 0\<rparr>"
  by (simp add: phase_AB_def encoder_irq_def EncoderReader_init_def Let_def
      irq_handler_def N_meas_init_def phase_of_values lookup_def)

section \<open>The PID controller\<close>

lemma fle_trans: "fle a b \<Longrightarrow> fle b c \<Longrightarrow> fle a c"
  by (cases a; cases b; cases c) simp_all

lemma fle_not_NaN: "fle a b \<Longrightarrow> a \<noteq> NaN \<and> b \<noteq> NaN"
  by (cases a; cases b) simp_all


lemma clamp_in_range:
  "fle lo hi \<Longrightarrow> v \<noteq> NaN \<Longrightarrow>
     fle lo (if fgt v hi then hi else if flt v lo then lo else v)
   \<and> fle (if fgt v hi then hi else if flt v lo then lo else v) hi"
  by (cases v; cases lo; cases hi) (simp_all add: fgt_def)

lemma flt_NaN_right: "flt a NaN = False"
  by (cases a) simp_all

lemma clamp_NaN:
  "(if fgt NaN hi then hi else if flt NaN lo then lo else NaN) = NaN"
  by (simp add: fgt_def flt_NaN_right)

text \<open>The example rounding on small and on overflowing values.\<close>

lemma no_rounding_small: "\<bar>x\<bar> \<le> 1000000000 \<Longrightarrow> no_rounding x = Fin x"
proof -
  assume a: "\<bar>x\<bar> \<le> 1000000000"
  have "(1000000000 :: real) < 2 ^ 1024 - 2 ^ 970" by simp
  with a have "x < 2 ^ 1024 - 2 ^ 970" and "- (2 ^ 1024 - 2 ^ 970) < x" by linarith+
  then show ?thesis by (simp add: no_rounding_def)
qed

lemma no_rounding_huge: "2 ^ 1024 \<le> x \<Longrightarrow> no_rounding x = PInf"
proof -
  assume a: "2 ^ 1024 \<le> x"
  have "(2 :: real) ^ 1024 - 2 ^ 970 \<le> 2 ^ 1024" by simp
  with a have "2 ^ 1024 - 2 ^ 970 \<le> x" by linarith
  then show ?thesis by (simp add: no_rounding_def)
qed



lemma update_gated:
  "py_int_float (fmul rnd (sample_time p) (Fin 1000)) = Inr thr \<Longrightarrow>
   ticks_diff now (last_time p) < thr \<Longrightarrow>
     update rnd now x p = (p, Inr (output_value p))"
  by (simp add: update_def)

lemma update_static:
  "output_min (fst (update rnd now x p)) = output_min p"
  "output_max (fst (update rnd now x p)) = output_max p"
  "integral_limit (fst (update rnd now x p)) = integral_limit p"
  "sample_time (fst (update rnd now x p)) = sample_time p"
  "setpoint (fst (update rnd now x p)) = setpoint p"
  by (simp_all add: update_def Let_def split: sum.splits)

lemma update_returns_stored:
  "snd (update rnd now x p) = Inr v \<Longrightarrow> v = output_value (fst (update rnd now x p))"
  by (auto simp add: update_def Let_def split: sum.splits if_splits)

lemma fdiv_Inl_iff:
  "fdiv rnd a b = Inl e \<longleftrightarrow> b = Fin 0 \<and> e = ZeroDivisionError"
  by (cases a; cases b) auto

lemma update_accepted:
  "py_int_float (fmul rnd (sample_time p) (Fin 1000)) = Inr thr \<Longrightarrow>
   \<not> ticks_diff now (last_time p) < thr \<Longrightarrow>
     snd (update rnd now x p) =
       (case fdiv rnd (fsub rnd (fsub rnd (setpoint p) x) (last_error p)) (sample_time p) of
          Inl err \<Rightarrow> Inl err
        | Inr derivative \<Rightarrow> Inr (output_value (fst (update rnd now x p))))"
  by (simp add: update_def Let_def split: sum.splits)



lemma update_accepted_output:
  "py_int_float (fmul rnd (sample_time p) (Fin 1000)) = Inr thr \<Longrightarrow>
   \<not> ticks_diff now (last_time p) < thr \<Longrightarrow> sample_time p \<noteq> Fin 0 \<Longrightarrow>
   p' = fst (update rnd now x p) \<Longrightarrow>
   o0 = fadd rnd (fadd rnd (p_term p') (i_term p')) (d_term p') \<Longrightarrow>
     output_value p' =
       (if fgt o0 (output_max p) then output_max p
        else if flt o0 (output_min p) then output_min p else o0)"
  by (simp add: update_def Let_def fdiv_Inl_iff split: sum.splits)

lemma update_raise_keeps_output:
  "sample_time p = Fin 0 \<Longrightarrow> output_value (fst (update rnd now x p)) = output_value p"
  by (simp add: update_def Let_def split: sum.splits)

lemma update_rejected_keeps:
  "\<not> (\<exists>thr. py_int_float (fmul rnd (sample_time p) (Fin 1000)) = Inr thr
        \<and> \<not> ticks_diff now (last_time p) < thr) \<Longrightarrow>
     fst (update rnd now x p) = p"
  by (auto simp add: update_def split: sum.splits)

lemma update_output_range:
  assumes "fle (output_min p) (output_max p)"
    and "output_value p = NaN
         \<or> (fle (output_min p) (output_value p) \<and> fle (output_value p) (output_max p))"
  shows "output_value (fst (update rnd now x p)) = NaN
         \<or> (fle (output_min p) (output_value (fst (update rnd now x p)))
            \<and> fle (output_value (fst (update rnd now x p))) (output_max p))"
proof (cases "\<exists>thr. py_int_float (fmul rnd (sample_time p) (Fin 1000)) = Inr thr
        \<and> \<not> ticks_diff now (last_time p) < thr")
  case False
  then show ?thesis using assms(2) by (simp add: update_rejected_keeps)
next
  case True
  then obtain thr where t: "py_int_float (fmul rnd (sample_time p) (Fin 1000)) = Inr thr"
    and g: "\<not> ticks_diff now (last_time p) < thr" by blast
  show ?thesis
  proof (cases "sample_time p = Fin 0")
    case True
    then show ?thesis using assms(2) by (simp add: update_raise_keeps_output)
  next
    case False
    let ?p' = "fst (update rnd now x p)"
    let ?o0 = "fadd rnd (fadd rnd (p_term ?p') (i_term ?p')) (d_term ?p')"
    note out = update_accepted_output [OF t g False refl refl, of x]
    show ?thesis
    proof (cases "?o0 = NaN")
      case True
      then show ?thesis unfolding out by (simp add: fgt_def flt_NaN_right)
    next
      case False
      from clamp_in_range [OF assms(1) False] show ?thesis unfolding out by blast
    qed
  qed
qed


lemma apply_pid_op_static:
  "output_min (apply_pid_op rnd c p) = output_min p"
  "output_max (apply_pid_op rnd c p) = output_max p"
  "integral_limit (apply_pid_op rnd c p) = integral_limit p"
  "sample_time (apply_pid_op rnd c p) = sample_time p"
  by (cases c; simp add: update_static set_tunings_def set_setpoint_def reset_def)+

lemma run_pid_ops_static:
  "output_min (run_pid_ops rnd cs p) = output_min p"
  "output_max (run_pid_ops rnd cs p) = output_max p"
  "integral_limit (run_pid_ops rnd cs p) = integral_limit p"
  "sample_time (run_pid_ops rnd cs p) = sample_time p"
  by (induction cs arbitrary: p) (simp_all add: apply_pid_op_static)

lemma apply_pid_op_output_range:
  assumes "fle (output_min p) (Fin 0)" "fle (Fin 0) (output_max p)"
    and "output_value p = NaN
         \<or> (fle (output_min p) (output_value p) \<and> fle (output_value p) (output_max p))"
  shows "output_value (apply_pid_op rnd c p) = NaN
         \<or> (fle (output_min p) (output_value (apply_pid_op rnd c p))
            \<and> fle (output_value (apply_pid_op rnd c p)) (output_max p))"
proof (cases c)
  case (Update now x)
  from assms have "fle (output_min p) (output_max p)" by (blast intro: fle_trans)
  from update_output_range [OF this assms(3)] Update show ?thesis by simp
qed (use assms in \<open>simp_all add: set_tunings_def set_setpoint_def reset_def\<close>)


lemma run_pid_ops_output_range:
  "fle (output_min p) (Fin 0) \<Longrightarrow> fle (Fin 0) (output_max p) \<Longrightarrow>
   output_value p = NaN
     \<or> (fle (output_min p) (output_value p) \<and> fle (output_value p) (output_max p)) \<Longrightarrow>
     output_min (run_pid_ops rnd cs p) = output_min p
   \<and> output_max (run_pid_ops rnd cs p) = output_max p
   \<and> (output_value (run_pid_ops rnd cs p) = NaN
       \<or> (fle (output_min p) (output_value (run_pid_ops rnd cs p))
          \<and> fle (output_value (run_pid_ops rnd cs p)) (output_max p)))"
proof (induction cs arbitrary: p)
  case Nil
  then show ?case by simp
next
  case (Cons c cs)
  from apply_pid_op_output_range [OF Cons.prems, of rnd c]
  have "output_value (apply_pid_op rnd c p) = NaN
      \<or> (fle (output_min (apply_pid_op rnd c p)) (output_value (apply_pid_op rnd c p))
         \<and> fle (output_value (apply_pid_op rnd c p)) (output_max (apply_pid_op rnd c p)))"
    by (simp add: apply_pid_op_static)
  with Cons.IH [of "apply_pid_op rnd c p"] Cons.prems show ?case
    by (simp add: apply_pid_op_static)
qed







text \<open>
  C2 (as amended). A controller constructed with \<open>output_min \<le> 0 \<le> output_max\<close>, after any
  sequence of calls: the output stored by the next \<open>update\<close> is NaN or lies in
  \<open>[output_min, output_max]\<close>, the value the call returns is the stored output, and when
  the call is an accepted cycle whose sum of the three terms is not NaN the stored output
  lies in \<open>[output_min, output_max]\<close>.
\<close>

theorem pid_output_in_range:
  "fle omin (Fin 0) \<Longrightarrow> fle (Fin 0) omax \<Longrightarrow>
   p = run_pid_ops rnd ops (PIDController_init rnd Kp Ki Kd sp omin omax st tinit) \<Longrightarrow>
   p' = fst (update rnd now x p) \<Longrightarrow>
     (output_value p' = NaN \<or> (fle omin (output_value p') \<and> fle (output_value p') omax))
   \<and> (\<forall>v. snd (update rnd now x p) = Inr v \<longrightarrow> v = output_value p')
   \<and> ((\<exists>thr. py_int_float (fmul rnd st (Fin 1000)) = Inr thr
              \<and> \<not> ticks_diff now (last_time p) < thr)
        \<and> st \<noteq> Fin 0
        \<and> fadd rnd (fadd rnd (p_term p') (i_term p')) (d_term p') \<noteq> NaN \<longrightarrow>
       fle omin (output_value p') \<and> fle (output_value p') omax)"
proof -
  assume lo: "fle omin (Fin 0)" and hi: "fle (Fin 0) omax"
    and p: "p = run_pid_ops rnd ops (PIDController_init rnd Kp Ki Kd sp omin omax st tinit)"
    and p': "p' = fst (update rnd now x p)"
  let ?q = "PIDController_init rnd Kp Ki Kd sp omin omax st tinit"
  have q: "output_min ?q = omin" "output_max ?q = omax" "output_value ?q = Fin 0"
    "sample_time ?q = st"
    by (simp_all add: PIDController_init_def)
  have inv: "output_min p = omin \<and> output_max p = omax
      \<and> (output_value p = NaN \<or> (fle omin (output_value p) \<and> fle (output_value p) omax))"
    using run_pid_ops_output_range [of ?q rnd ops] lo hi by (simp add: q p)
  have st: "sample_time p = st"
    unfolding p by (simp add: run_pid_ops_static q)
  have mm: "fle omin omax" using lo hi by (rule fle_trans)
  have a: "output_value p' = NaN \<or> (fle omin (output_value p') \<and> fle (output_value p') omax)"
    using update_output_range [of p rnd now x] inv mm by (simp add: p')
  have b: "\<forall>v. snd (update rnd now x p) = Inr v \<longrightarrow> v = output_value p'"
    unfolding p' by (blast dest: update_returns_stored)
  have c: "(\<exists>thr. py_int_float (fmul rnd st (Fin 1000)) = Inr thr
              \<and> \<not> ticks_diff now (last_time p) < thr)
        \<and> st \<noteq> Fin 0
        \<and> fadd rnd (fadd rnd (p_term p') (i_term p')) (d_term p') \<noteq> NaN \<longrightarrow>
       fle omin (output_value p') \<and> fle (output_value p') omax"
  proof
    assume h: "(\<exists>thr. py_int_float (fmul rnd st (Fin 1000)) = Inr thr
              \<and> \<not> ticks_diff now (last_time p) < thr)
        \<and> st \<noteq> Fin 0
        \<and> fadd rnd (fadd rnd (p_term p') (i_term p')) (d_term p') \<noteq> NaN"
    then obtain thr where t: "py_int_float (fmul rnd (sample_time p) (Fin 1000)) = Inr thr"
      and g: "\<not> ticks_diff now (last_time p) < thr" by (auto simp: st)
    from h have z: "sample_time p \<noteq> Fin 0"
      and nn: "fadd rnd (fadd rnd (p_term p') (i_term p')) (d_term p') \<noteq> NaN"
      by (simp_all add: st)
    have mm': "fle (output_min p) (output_max p)" using mm inv by simp
    from clamp_in_range [OF mm' nn]
    show "fle omin (output_value p') \<and> fle (output_value p') omax"
      unfolding update_accepted_output [OF t g z p' refl] using inv by simp
  qed
  show ?thesis by (rule conjI [OF a conjI [OF b c]])
qed


theorem pid_output_in_range_witness:
  "fle (Fin (- 100)) (Fin 0) \<and> fle (Fin 0) (Fin 100)
   \<and> snd (update no_rounding 40 (Fin 0)
        (run_pid_ops no_rounding [Update 10 (Fin 0), SetSetpoint (Fin 45), Update 25 (Fin 100)]
           (PIDController_init no_rounding (Fin 2) (Fin 0.5) (Fin 0.1) (Fin 90)
              (Fin (- 100)) (Fin 100) (Fin 0.01) 0))) = Inr (Fin 100)
   \<and> fle (Fin (- 100)) (Fin 100) \<and> fle (Fin 100) (Fin 100)"
proof -
  let ?p = "run_pid_ops no_rounding [Update 10 (Fin 0), SetSetpoint (Fin 45), Update 25 (Fin 100)]
           (PIDController_init no_rounding (Fin 2) (Fin 0.5) (Fin 0.1) (Fin 90)
              (Fin (- 100)) (Fin 100) (Fin 0.01) 0)"
  note ev = update_def PIDController_init_def set_setpoint_def no_rounding_small fsub_def fgt_def
    ticks_diff_def TICKS_PERIOD_def py_int_def Let_def
  have lo: "fle (Fin (- 100)) (Fin 0)" and hi: "fle (Fin 0) (Fin 100)" by simp_all
  have r: "snd (update no_rounding 40 (Fin 0) ?p) = Inr (Fin 100)"
    by (simp add: ev)
  have s: "output_value (fst (update no_rounding 40 (Fin 0) ?p)) = Fin 100"
    using update_returns_stored [OF r] by simp
  from pid_output_in_range [OF lo hi refl refl, of no_rounding 40 "Fin 0"
      "[Update 10 (Fin 0), SetSetpoint (Fin 45), Update 25 (Fin 100)]"
      "Fin 2" "Fin 0.5" "Fin 0.1" "Fin 90" "Fin 0.01" 0]
  have "output_value (fst (update no_rounding 40 (Fin 0) ?p)) = NaN
      \<or> (fle (Fin (- 100)) (output_value (fst (update no_rounding 40 (Fin 0) ?p)))
         \<and> fle (output_value (fst (update no_rounding 40 (Fin 0) ?p))) (Fin 100))"
    by (rule conjunct1)
  then have rng: "fle (Fin (- 100)) (Fin 100) \<and> fle (Fin 100) (Fin 100)"
    unfolding s by simp
  show ?thesis
    by (rule conjI [OF lo conjI [OF hi conjI [OF r rng]]])
qed

text \<open>
  C2 as stated fails: with \<open>kp = 1\<close>, \<open>ki = kd = 0\<close>, setpoint \<open>2^1023\<close> and the default limits
  and sample time, an update with the measured value \<open>-2^1023\<close> overflows the error to
  infinity, the derivative term is 0 times infinity, and NaN is stored and returned.
\<close>

theorem pid_output_counterexample:
  "fle (Fin (- 100)) (Fin 0) \<and> fle (Fin 0) (Fin 100)
   \<and> snd (update no_rounding 10 (Fin (- (2 ^ 1023)))
        (PIDController_init no_rounding (Fin 1) (Fin 0) (Fin 0) (Fin (2 ^ 1023))
           (Fin (- 100)) (Fin 100) (no_rounding 0.01) 0)) = Inr NaN
   \<and> output_value (fst (update no_rounding 10 (Fin (- (2 ^ 1023)))
        (PIDController_init no_rounding (Fin 1) (Fin 0) (Fin 0) (Fin (2 ^ 1023))
           (Fin (- 100)) (Fin 100) (no_rounding 0.01) 0))) = NaN
   \<and> \<not> fle (Fin (- 100)) NaN \<and> \<not> fle NaN (Fin 100)"
  by (simp add: update_def PIDController_init_def no_rounding_small no_rounding_huge fsub_def fgt_def inf_times_def
      ticks_diff_def TICKS_PERIOD_def py_int_def Let_def)




text \<open>
  C5 (as amended). A call to \<open>update\<close> made while the tick difference to \<open>last_time\<close>, in
  whole milliseconds, is below \<open>int(sample_time * 1000)\<close> returns the stored output and
  leaves the whole controller, every field of it, as it was. Hence two calls within that
  window return the same value, and it is the value the accepted cycle that produced this
  state returned. For a product \<open>sample_time * 1000\<close> of at least 0 the window is: one more
  whole millisecond still fits before the product.
\<close>

theorem update_within_sample_time:
  "py_int_float (fmul rnd (sample_time p) (Fin 1000)) = Inr thr \<Longrightarrow>
   ticks_diff now (last_time p) < thr \<Longrightarrow>
   ticks_diff now' (last_time p) < thr \<Longrightarrow>
     update rnd now x p = (p, Inr (output_value p))
   \<and> snd (update rnd now' x' (fst (update rnd now x p))) = snd (update rnd now x p)
   \<and> (\<forall>q tq xq v. update rnd tq xq q = (p, Inr v) \<longrightarrow> snd (update rnd now x p) = Inr v)
   \<and> (\<forall>T. fmul rnd (sample_time p) (Fin 1000) = Fin T \<and> 0 \<le> T \<longrightarrow>
        (\<forall>d :: int. d < thr \<longleftrightarrow> real_of_int d + 1 \<le> T))"
proof -
  assume t: "py_int_float (fmul rnd (sample_time p) (Fin 1000)) = Inr thr"
    and g: "ticks_diff now (last_time p) < thr"
    and g': "ticks_diff now' (last_time p) < thr"
  have a: "update rnd now x p = (p, Inr (output_value p))"
    using t g by (rule update_gated)
  have b: "update rnd now' x' p = (p, Inr (output_value p))"
    using t g' by (rule update_gated)
  have c: "\<forall>q tq xq v. update rnd tq xq q = (p, Inr v) \<longrightarrow> snd (update rnd now x p) = Inr v"
  proof (intro allI impI)
    fix q tq xq v
    assume u: "update rnd tq xq q = (p, Inr v)"
    have "v = output_value (fst (update rnd tq xq q))"
      by (rule update_returns_stored) (simp add: u)
    also have "fst (update rnd tq xq q) = p"
      by (simp add: u)
    finally have "v = output_value p" .
    then show "snd (update rnd now x p) = Inr v"
      by (simp add: a)
  qed
  have d: "snd (update rnd now' x' (fst (update rnd now x p))) = snd (update rnd now x p)"
    by (simp add: a b)
  have e: "\<forall>T. fmul rnd (sample_time p) (Fin 1000) = Fin T \<and> 0 \<le> T \<longrightarrow>
        (\<forall>d :: int. d < thr \<longleftrightarrow> real_of_int d + 1 \<le> T)"
  proof (intro allI impI)
    fix T and d :: int
    assume h: "fmul rnd (sample_time p) (Fin 1000) = Fin T \<and> 0 \<le> T"
    with t have "thr = \<lfloor>T\<rfloor>" by (simp add: py_int_def)
    moreover have "d < \<lfloor>T\<rfloor> \<longleftrightarrow> real_of_int (d + 1) \<le> T"
      by (simp only: le_floor_iff [symmetric]) linarith
    ultimately show "d < thr \<longleftrightarrow> real_of_int d + 1 \<le> T" by simp
  qed
  show ?thesis
    by (rule conjI [OF a conjI [OF d conjI [OF c e]]])
qed

theorem update_within_sample_time_witness:
  "py_int_float (fmul no_rounding (sample_time (fst (update no_rounding 10 (Fin 0)
       (PIDController_init no_rounding (Fin 2) (Fin 0) (Fin 0) (Fin 90) (Fin (- 100)) (Fin 100)
          (Fin 0.01) 0)))) (Fin 1000)) = Inr 10
   \<and> ticks_diff 15 (last_time (fst (update no_rounding 10 (Fin 0)
       (PIDController_init no_rounding (Fin 2) (Fin 0) (Fin 0) (Fin 90) (Fin (- 100)) (Fin 100)
          (Fin 0.01) 0)))) < 10
   \<and> ticks_diff 19 (last_time (fst (update no_rounding 10 (Fin 0)
       (PIDController_init no_rounding (Fin 2) (Fin 0) (Fin 0) (Fin 90) (Fin (- 100)) (Fin 100)
          (Fin 0.01) 0)))) < 10
   \<and> snd (update no_rounding 15 (Fin 30) (fst (update no_rounding 10 (Fin 0)
       (PIDController_init no_rounding (Fin 2) (Fin 0) (Fin 0) (Fin 90) (Fin (- 100)) (Fin 100)
          (Fin 0.01) 0)))) = Inr (Fin 100)
   \<and> snd (update no_rounding 19 (Fin 60) (fst (update no_rounding 15 (Fin 30)
       (fst (update no_rounding 10 (Fin 0)
       (PIDController_init no_rounding (Fin 2) (Fin 0) (Fin 0) (Fin 90) (Fin (- 100)) (Fin 100)
          (Fin 0.01) 0)))))) = Inr (Fin 100)"
proof -
  let ?p = "fst (update no_rounding 10 (Fin 0)
       (PIDController_init no_rounding (Fin 2) (Fin 0) (Fin 0) (Fin 90) (Fin (- 100)) (Fin 100)
          (Fin 0.01) 0))"
  note ev = update_def PIDController_init_def no_rounding_small fsub_def fgt_def
    ticks_diff_def TICKS_PERIOD_def py_int_def Let_def
  have t: "py_int_float (fmul no_rounding (sample_time ?p) (Fin 1000)) = Inr 10"
    by (simp add: ev)
  have g: "ticks_diff 15 (last_time ?p) < 10"
    by (simp add: ev)
  have g': "ticks_diff 19 (last_time ?p) < 10"
    by (simp add: ev)
  have v: "output_value ?p = Fin 100"
    by (simp add: ev)
  note W = update_within_sample_time [OF t g g', of "Fin 30" "Fin 60"]
  have A: "update no_rounding 15 (Fin 30) ?p = (?p, Inr (output_value ?p))"
    by (rule W [THEN conjunct1])
  have B: "snd (update no_rounding 19 (Fin 60) (fst (update no_rounding 15 (Fin 30) ?p)))
      = snd (update no_rounding 15 (Fin 30) ?p)"
    by (rule W [THEN conjunct2, THEN conjunct1])
  have C: "snd (update no_rounding 15 (Fin 30) ?p) = Inr (Fin 100)"
    by (simp only: A snd_conv v)
  have D: "snd (update no_rounding 19 (Fin 60) (fst (update no_rounding 15 (Fin 30) ?p)))
      = Inr (Fin 100)"
    by (simp only: B C)
  show ?thesis
    by (rule conjI [OF t conjI [OF g conjI [OF g' conjI [OF C D]]]])
qed

text \<open>
  C5 as stated fails: with \<open>sample_time = 0.0105\<close> and a cycle accepted at tick 11, a call
  at tick 21 comes 10 ms later, before the sample time of 10.5 ms has elapsed, and is
  computed afresh: it returns 20 where the stored output was 10, and moves \<open>last_time\<close>.
\<close>

theorem update_within_sample_time_counterexample:
  "output_value (fst (update no_rounding 11 (Fin (- 10))
       (PIDController_init no_rounding (Fin 1) (Fin 0) (Fin 0) (Fin 0) (Fin (- 100)) (Fin 100)
          (Fin 0.0105) 0))) = Fin 10
   \<and> last_time (fst (update no_rounding 11 (Fin (- 10))
       (PIDController_init no_rounding (Fin 1) (Fin 0) (Fin 0) (Fin 0) (Fin (- 100)) (Fin 100)
          (Fin 0.0105) 0))) = 11
   \<and> real_of_int (ticks_diff 21 11) / 1000 < 0.0105
   \<and> snd (update no_rounding 21 (Fin (- 20)) (fst (update no_rounding 11 (Fin (- 10))
       (PIDController_init no_rounding (Fin 1) (Fin 0) (Fin 0) (Fin 0) (Fin (- 100)) (Fin 100)
          (Fin 0.0105) 0)))) = Inr (Fin 20)
   \<and> last_time (fst (update no_rounding 21 (Fin (- 20)) (fst (update no_rounding 11 (Fin (- 10))
       (PIDController_init no_rounding (Fin 1) (Fin 0) (Fin 0) (Fin 0) (Fin (- 100)) (Fin 100)
          (Fin 0.0105) 0))))) = 21"
  by (simp add: update_def PIDController_init_def no_rounding_small fsub_def fgt_def
      ticks_diff_def TICKS_PERIOD_def py_int_def Let_def)




section \<open>Rise time and settling time\<close>

lemma settling_loop_in_data:
  "data \<noteq> [] \<Longrightarrow> k < length data \<Longrightarrow>
     settling_loop data target band k \<in> pt_time ` set data"
proof (induction k)
  case 0
  then show ?case by simp
next
  case (Suc k)
  then show ?case by (auto simp: nth_mem)
qed

lemma settling_loop_quiet:
  "(\<forall>j. 1 \<le> j \<and> j \<le> k \<longrightarrow> \<not> \<bar>pt_angle (data ! j) - target\<bar> > band) \<Longrightarrow>
     settling_loop data target band k = pt_time (last data)"
  by (induction k) auto

lemma settling_loop_last_violation:
  "1 \<le> i \<Longrightarrow> i \<le> k \<Longrightarrow> \<bar>pt_angle (data ! i) - target\<bar> > band \<Longrightarrow>
   (\<forall>j. i < j \<and> j \<le> k \<longrightarrow> \<not> \<bar>pt_angle (data ! j) - target\<bar> > band) \<Longrightarrow>
     settling_loop data target band k =
       (if Suc i < length data then pt_time (data ! Suc i) else pt_time (last data))"
proof (induction k)
  case 0
  then show ?case by simp
next
  case (Suc k)
  show ?case
  proof (cases "i = Suc k")
    case True
    with Suc.prems show ?thesis by simp
  next
    case False
    with Suc.prems have "i \<le> k" and "\<not> \<bar>pt_angle (data ! Suc k) - target\<bar> > band"
      by auto
    with Suc show ?thesis by simp
  qed
qed

text \<open>
  C4 (as amended). On a non-empty sample list the settling time is never reported
  unavailable: it is always the time of some recorded sample. When the final sample is
  outside the band of 2 percent of the target, the result is the final sample's time. When
  the last sample outside the band is at an index \<open>i \<ge> 1\<close> and has a successor, the result
  is the successor's time. The rise time is \<open>None\<close> when no sample reaches ninety percent
  of the target or none reaches ten percent.
\<close>

theorem settling_time_never_unavailable:
  "data \<noteq> [] \<Longrightarrow>
     (\<exists>t. calculate_settling_time data target = Some t \<and> t \<in> pt_time ` set data)
   \<and> (\<bar>pt_angle (last data) - target\<bar> > target * 0.02 \<longrightarrow>
        calculate_settling_time data target = Some (pt_time (last data)))
   \<and> (\<forall>i. 1 \<le> i \<and> Suc i < length data
          \<and> \<bar>pt_angle (data ! i) - target\<bar> > target * 0.02
          \<and> (\<forall>j. i < j \<and> j < length data \<longrightarrow>
                \<not> \<bar>pt_angle (data ! j) - target\<bar> > target * 0.02) \<longrightarrow>
        calculate_settling_time data target = Some (pt_time (data ! Suc i)))
   \<and> ((\<forall>p \<in> set data. pt_angle p < target * 0.9) \<longrightarrow> calculate_rise_time data target = None)
   \<and> ((\<forall>p \<in> set data. pt_angle p < target * 0.1) \<longrightarrow> calculate_rise_time data target = None)"
proof -
  assume ne: "data \<noteq> []"
  let ?band = "target * 0.02"
  let ?k = "length data - 1"
  have st: "calculate_settling_time data target = Some (settling_loop data target ?band ?k)"
    using ne by (simp add: calculate_settling_time_def)
  have k: "?k < length data" using ne by simp
  have a: "\<exists>t. calculate_settling_time data target = Some t \<and> t \<in> pt_time ` set data"
    using settling_loop_in_data [OF ne k] st by simp
  have b: "\<bar>pt_angle (last data) - target\<bar> > ?band \<longrightarrow>
      calculate_settling_time data target = Some (pt_time (last data))"
  proof
    assume v: "\<bar>pt_angle (last data) - target\<bar> > ?band"
    show "calculate_settling_time data target = Some (pt_time (last data))"
    proof (cases ?k)
      case 0
      then show ?thesis using st by simp
    next
      case (Suc m)
      have "data ! Suc m = last data" using ne Suc by (simp add: last_conv_nth)
      moreover have "\<not> Suc m + 1 < length data" using Suc by simp
      ultimately show ?thesis using st Suc v by simp
    qed
  qed
  have c: "\<forall>i. 1 \<le> i \<and> Suc i < length data
          \<and> \<bar>pt_angle (data ! i) - target\<bar> > ?band
          \<and> (\<forall>j. i < j \<and> j < length data \<longrightarrow> \<not> \<bar>pt_angle (data ! j) - target\<bar> > ?band) \<longrightarrow>
        calculate_settling_time data target = Some (pt_time (data ! Suc i))"
  proof (intro allI impI)
    fix i
    assume h: "1 \<le> i \<and> Suc i < length data
          \<and> \<bar>pt_angle (data ! i) - target\<bar> > ?band
          \<and> (\<forall>j. i < j \<and> j < length data \<longrightarrow> \<not> \<bar>pt_angle (data ! j) - target\<bar> > ?band)"
    then have "1 \<le> i" "i \<le> ?k" "\<bar>pt_angle (data ! i) - target\<bar> > ?band"
      "\<forall>j. i < j \<and> j \<le> ?k \<longrightarrow> \<not> \<bar>pt_angle (data ! j) - target\<bar> > ?band"
      by auto
    from settling_loop_last_violation [OF this] h st
    show "calculate_settling_time data target = Some (pt_time (data ! Suc i))" by simp
  qed
  have d: "(\<forall>p \<in> set data. pt_angle p < target * 0.9) \<longrightarrow> calculate_rise_time data target = None"
  proof
    assume "\<forall>p \<in> set data. pt_angle p < target * 0.9"
    then have "find (\<lambda>p. pt_angle p \<ge> target * 0.9) data = None"
      by (auto simp: find_None_iff)
    then show "calculate_rise_time data target = None"
      by (simp add: calculate_rise_time_def Let_def)
  qed
  have e: "(\<forall>p \<in> set data. pt_angle p < target * 0.1) \<longrightarrow> calculate_rise_time data target = None"
  proof
    assume "\<forall>p \<in> set data. pt_angle p < target * 0.1"
    then have "find (\<lambda>p. pt_angle p \<ge> target * 0.1) data = None"
      by (auto simp: find_None_iff)
    then show "calculate_rise_time data target = None"
      by (simp add: calculate_rise_time_def Let_def truthy_def split: option.splits)
  qed
  show ?thesis
    by (rule conjI [OF a conjI [OF b conjI [OF c conjI [OF d e]]]])
qed


theorem settling_time_never_unavailable_witness:
  "[\<lparr>pt_time = 0, pt_angle = 0, pt_error = Fin 100, pt_output = Fin 80\<rparr>,
    \<lparr>pt_time = 1, pt_angle = 50, pt_error = Fin 50, pt_output = Fin 80\<rparr>,
    \<lparr>pt_time = 2, pt_angle = 99, pt_error = Fin 1, pt_output = Fin 2\<rparr>,
    \<lparr>pt_time = 3, pt_angle = 100, pt_error = Fin 0, pt_output = Fin 0\<rparr>] \<noteq> []
   \<and> calculate_settling_time
        [\<lparr>pt_time = 0, pt_angle = 0, pt_error = Fin 100, pt_output = Fin 80\<rparr>,
         \<lparr>pt_time = 1, pt_angle = 50, pt_error = Fin 50, pt_output = Fin 80\<rparr>,
         \<lparr>pt_time = 2, pt_angle = 99, pt_error = Fin 1, pt_output = Fin 2\<rparr>,
         \<lparr>pt_time = 3, pt_angle = 100, pt_error = Fin 0, pt_output = Fin 0\<rparr>] 100 = Some 2
   \<and> calculate_rise_time
        [\<lparr>pt_time = 0, pt_angle = 0, pt_error = Fin 100, pt_output = Fin 80\<rparr>,
         \<lparr>pt_time = 1, pt_angle = 50, pt_error = Fin 50, pt_output = Fin 80\<rparr>,
         \<lparr>pt_time = 2, pt_angle = 99, pt_error = Fin 1, pt_output = Fin 2\<rparr>,
         \<lparr>pt_time = 3, pt_angle = 100, pt_error = Fin 0, pt_output = Fin 0\<rparr>] 200 = None"
proof -
  let ?d = "[\<lparr>pt_time = 0, pt_angle = 0, pt_error = Fin 100, pt_output = Fin 80\<rparr>,
    \<lparr>pt_time = 1, pt_angle = 50, pt_error = Fin 50, pt_output = Fin 80\<rparr>,
    \<lparr>pt_time = 2, pt_angle = 99, pt_error = Fin 1, pt_output = Fin 2\<rparr>,
    \<lparr>pt_time = 3, pt_angle = 100, pt_error = Fin 0, pt_output = Fin 0\<rparr>]"
  have ne: "?d \<noteq> []" by simp
  have quiet: "\<forall>j. 1 < j \<and> j < length ?d \<longrightarrow> \<not> \<bar>pt_angle (?d ! j) - 100\<bar> > 100 * 0.02"
  proof (intro allI impI)
    fix j :: nat
    assume "1 < j \<and> j < length ?d"
    then have "j = 2 \<or> j = 3" by auto
    then show "\<not> \<bar>pt_angle (?d ! j) - 100\<bar> > 100 * 0.02" by auto
  qed
  have viol: "1 \<le> (1 :: nat) \<and> Suc 1 < length ?d \<and> \<bar>pt_angle (?d ! 1) - 100\<bar> > 100 * 0.02"
    by simp
  have s: "calculate_settling_time ?d 100 = Some (pt_time (?d ! Suc 1))"
    using settling_time_never_unavailable [OF ne, of 100] viol quiet by blast
  have low: "\<forall>p \<in> set ?d. pt_angle p < 200 * 0.9" by simp
  have r: "calculate_rise_time ?d 200 = None"
    using settling_time_never_unavailable [OF ne, of 200] low by blast
  have "pt_time (?d ! Suc 1) = 2" by simp
  with s have s2: "calculate_settling_time ?d 100 = Some 2" by (simp only:)
  show ?thesis
    by (rule conjI [OF ne conjI [OF s2 r]])
qed

text \<open>
  C4 as stated fails: with two samples at angle 0 and target 90 the final sample is
  outside the band, and the settling time reported is the final sample's time 1, not
  \<open>None\<close>.
\<close>

theorem settling_time_counterexample:
  "\<bar>pt_angle (last [\<lparr>pt_time = 0, pt_angle = 0, pt_error = Fin 90, pt_output = Fin 80\<rparr>,
                    \<lparr>pt_time = 1, pt_angle = 0, pt_error = Fin 90, pt_output = Fin 80\<rparr>]) - 90\<bar>
     > 90 * 0.02
   \<and> calculate_settling_time
        [\<lparr>pt_time = 0, pt_angle = 0, pt_error = Fin 90, pt_output = Fin 80\<rparr>,
         \<lparr>pt_time = 1, pt_angle = 0, pt_error = Fin 90, pt_output = Fin 80\<rparr>] 90 = Some 1"
  by (simp add: calculate_settling_time_def)

section \<open>The analyzer\<close>

lemma slice_from_length:
  "length (slice_from (- (int (length xs) div 10)) xs) =
     (if length xs < 10 then length xs else length xs div 10)"
  by (auto simp: slice_from_def)

lemma slice_from_whole:
  "length xs < 10 \<Longrightarrow> slice_from (- (int (length xs) div 10)) xs = xs"
  by (simp add: slice_from_def)

lemma slice_from_nonempty:
  "xs \<noteq> [] \<Longrightarrow> slice_from (- (int (length xs) div 10)) xs \<noteq> []"
proof -
  assume "xs \<noteq> []"
  then have "0 < length (slice_from (- (int (length xs) div 10)) xs)"
    unfolding slice_from_length by (auto simp: div_greater_zero_iff)
  then show ?thesis by auto
qed

lemma rise_scan_start:
  "fst (rise_scan ds ten ninety rs re) = None
   \<or> fst (rise_scan ds ten ninety rs re) =
       (case rs of Some t \<Rightarrow> Some t
        | None \<Rightarrow> map_option dp_time (find (\<lambda>d. dp_actual d \<ge> ten) ds))"
proof (induction ds arbitrary: rs)
  case Nil
  then show ?case by (simp split: option.splits)
next
  case (Cons d ds)
  show ?case
    using Cons.IH [of "if rs = None \<and> dp_actual d \<ge> ten then Some (dp_time d) else rs"]
    by (auto simp: Let_def split: option.splits if_splits)
qed

lemma analyze_step_response_returns:
  assumes "ds \<noteq> []"
  shows "analyze_step_response ds = Inr (Some
     \<lparr>steady_state_value =
        sum_list (map dp_actual (slice_from (- (int (length ds) div 10)) ds))
          / real (length (slice_from (- (int (length ds) div 10)) ds)),
      an_overshoot =
        (if dp_setpoint (hd ds) \<noteq> 0
         then ((Max (set (map dp_actual ds)) - dp_setpoint (hd ds)) / dp_setpoint (hd ds)) * 100
         else 0),
      an_steady_state_error =
        \<bar>dp_setpoint (hd ds)
          - sum_list (map dp_actual (slice_from (- (int (length ds) div 10)) ds))
              / real (length (slice_from (- (int (length ds) div 10)) ds))\<bar>,
      an_rise_time =
        (let (rise_start, rise_end) =
               rise_scan ds (dp_setpoint (hd ds) * 0.1) (dp_setpoint (hd ds) * 0.9) None None
         in if truthy rise_start \<and> truthy rise_end
            then Some (the rise_end - the rise_start) else None)\<rparr>)"
  using assms slice_from_nonempty [OF assms]
  by (simp add: analyze_step_response_def truediv_def Let_def split: prod.splits)

text \<open>
  C9. With at least one and fewer than ten samples the window size \<open>len(data) // 10\<close> is 0,
  the slice from index \<open>-0\<close> is the whole list, and the analyzer's steady-state value is the
  mean of all samples.
\<close>

theorem steady_state_short_data:
  "ds \<noteq> [] \<Longrightarrow> length ds < 10 \<Longrightarrow>
     int (length ds) div 10 = 0
   \<and> slice_from (- (int (length ds) div 10)) ds = ds
   \<and> (\<exists>a. analyze_step_response ds = Inr (Some a)
          \<and> steady_state_value a = sum_list (map dp_actual ds) / real (length ds))"
proof -
  assume ne: "ds \<noteq> []" and short: "length ds < 10"
  have w: "slice_from (- (int (length ds) div 10)) ds = ds"
    using short by (rule slice_from_whole)
  have z: "int (length ds) div 10 = 0" using short by simp
  have "\<exists>a. analyze_step_response ds = Inr (Some a)
          \<and> steady_state_value a = sum_list (map dp_actual ds) / real (length ds)"
    unfolding analyze_step_response_returns [OF ne] w by simp
  with z w show ?thesis by blast
qed

theorem steady_state_short_data_witness:
  "[\<lparr>dp_time = 0, dp_setpoint = 90, dp_actual = 0, dp_error = Fin 90, dp_output = Fin 100\<rparr>,
    \<lparr>dp_time = 1, dp_setpoint = 90, dp_actual = 99, dp_error = Fin (- 9), dp_output = Fin (- 18)\<rparr>,
    \<lparr>dp_time = 2, dp_setpoint = 90, dp_actual = 99, dp_error = Fin (- 9), dp_output = Fin (- 18)\<rparr>] \<noteq> []
   \<and> length
        [\<lparr>dp_time = 0, dp_setpoint = 90, dp_actual = 0, dp_error = Fin 90, dp_output = Fin 100\<rparr>,
         \<lparr>dp_time = 1, dp_setpoint = 90, dp_actual = 99, dp_error = Fin (- 9), dp_output = Fin (- 18)\<rparr>,
         \<lparr>dp_time = 2, dp_setpoint = 90, dp_actual = 99, dp_error = Fin (- 9), dp_output = Fin (- 18)\<rparr>] < 10
   \<and> (\<exists>a. analyze_step_response
        [\<lparr>dp_time = 0, dp_setpoint = 90, dp_actual = 0, dp_error = Fin 90, dp_output = Fin 100\<rparr>,
         \<lparr>dp_time = 1, dp_setpoint = 90, dp_actual = 99, dp_error = Fin (- 9), dp_output = Fin (- 18)\<rparr>,
         \<lparr>dp_time = 2, dp_setpoint = 90, dp_actual = 99, dp_error = Fin (- 9), dp_output = Fin (- 18)\<rparr>]
          = Inr (Some a) \<and> steady_state_value a = 66)"
proof -
  let ?d = "[\<lparr>dp_time = 0, dp_setpoint = 90, dp_actual = 0, dp_error = Fin 90, dp_output = Fin 100\<rparr>,
    \<lparr>dp_time = 1, dp_setpoint = 90, dp_actual = 99, dp_error = Fin (- 9), dp_output = Fin (- 18)\<rparr>,
    \<lparr>dp_time = 2, dp_setpoint = 90, dp_actual = 99, dp_error = Fin (- 9), dp_output = Fin (- 18)\<rparr>]"
  have ne: "?d \<noteq> []" and short: "length ?d < 10" by simp_all
  have m: "sum_list (map dp_actual ?d) / real (length ?d) = 66" by simp
  from steady_state_short_data [OF ne short]
  have "\<exists>a. analyze_step_response ?d = Inr (Some a)
      \<and> steady_state_value a = sum_list (map dp_actual ?d) / real (length ?d)"
    by (rule conjunct2 [THEN conjunct2])
  then have "\<exists>a. analyze_step_response ?d = Inr (Some a) \<and> steady_state_value a = 66"
    unfolding m .
  with ne short show ?thesis by blast
qed


text \<open>
  C10. When the first sample that reaches ten percent of the target has time 0, the rise
  time is \<open>None\<close>, in \<open>_calculate_rise_time\<close> and in the analyzer alike, whatever the later
  samples are (the witness has a later sample above ninety percent).
\<close>

theorem rise_time_zero_start:
  "(find (\<lambda>p. pt_angle p \<ge> target * 0.1) data = Some p0 \<and> pt_time p0 = 0 \<longrightarrow>
      calculate_rise_time data target = None)
   \<and> (find (\<lambda>d. dp_actual d \<ge> dp_setpoint (hd ds) * 0.1) ds = Some d0 \<and> dp_time d0 = 0 \<longrightarrow>
      (\<exists>a. analyze_step_response ds = Inr (Some a) \<and> an_rise_time a = None))"
proof (intro conjI impI)
  assume "find (\<lambda>p. pt_angle p \<ge> target * 0.1) data = Some p0 \<and> pt_time p0 = 0"
  then show "calculate_rise_time data target = None"
    by (simp add: calculate_rise_time_def Let_def truthy_def split: option.splits)
next
  assume h: "find (\<lambda>d. dp_actual d \<ge> dp_setpoint (hd ds) * 0.1) ds = Some d0 \<and> dp_time d0 = 0"
  then have ne: "ds \<noteq> []" by auto
  let ?scan = "rise_scan ds (dp_setpoint (hd ds) * 0.1) (dp_setpoint (hd ds) * 0.9) None None"
  from rise_scan_start [of ds "dp_setpoint (hd ds) * 0.1" "dp_setpoint (hd ds) * 0.9" None None] h
  have "fst ?scan = None \<or> fst ?scan = Some 0" by simp
  then have "\<not> truthy (fst ?scan)" by (auto simp: truthy_def)
  then show "\<exists>a. analyze_step_response ds = Inr (Some a) \<and> an_rise_time a = None"
    unfolding analyze_step_response_returns [OF ne]
    by (auto simp add: Let_def split: prod.splits)
qed

theorem rise_time_zero_start_witness:
  "find (\<lambda>p. pt_angle p \<ge> 100 * 0.1)
      [\<lparr>pt_time = 0, pt_angle = 10, pt_error = Fin 90, pt_output = Fin 80\<rparr>,
       \<lparr>pt_time = 1, pt_angle = 95, pt_error = Fin 5, pt_output = Fin 10\<rparr>]
     = Some \<lparr>pt_time = 0, pt_angle = 10, pt_error = Fin 90, pt_output = Fin 80\<rparr>
   \<and> find (\<lambda>p. pt_angle p \<ge> 100 * 0.9)
      [\<lparr>pt_time = 0, pt_angle = 10, pt_error = Fin 90, pt_output = Fin 80\<rparr>,
       \<lparr>pt_time = 1, pt_angle = 95, pt_error = Fin 5, pt_output = Fin 10\<rparr>]
     = Some \<lparr>pt_time = 1, pt_angle = 95, pt_error = Fin 5, pt_output = Fin 10\<rparr>
   \<and> calculate_rise_time
      [\<lparr>pt_time = 0, pt_angle = 10, pt_error = Fin 90, pt_output = Fin 80\<rparr>,
       \<lparr>pt_time = 1, pt_angle = 95, pt_error = Fin 5, pt_output = Fin 10\<rparr>] 100 = None
   \<and> (\<exists>a. analyze_step_response
      [\<lparr>dp_time = 0, dp_setpoint = 100, dp_actual = 10, dp_error = Fin 90, dp_output = Fin 100\<rparr>,
       \<lparr>dp_time = 1, dp_setpoint = 100, dp_actual = 95, dp_error = Fin 5, dp_output = Fin 10\<rparr>]
        = Inr (Some a) \<and> an_rise_time a = None)"
proof -
  let ?p0 = "\<lparr>pt_time = 0, pt_angle = 10, pt_error = Fin 90, pt_output = Fin 80\<rparr>"
  let ?p1 = "\<lparr>pt_time = 1, pt_angle = 95, pt_error = Fin 5, pt_output = Fin 10\<rparr>"
  let ?d0 = "\<lparr>dp_time = 0, dp_setpoint = 100, dp_actual = 10, dp_error = Fin 90, dp_output = Fin 100\<rparr>"
  let ?d1 = "\<lparr>dp_time = 1, dp_setpoint = 100, dp_actual = 95, dp_error = Fin 5, dp_output = Fin 10\<rparr>"
  have f10: "find (\<lambda>p. pt_angle p \<ge> 100 * 0.1) [?p0, ?p1] = Some ?p0" by simp
  have f90: "find (\<lambda>p. pt_angle p \<ge> 100 * 0.9) [?p0, ?p1] = Some ?p1" by simp
  have t0: "pt_time ?p0 = 0" by simp
  have g10: "find (\<lambda>d. dp_actual d \<ge> dp_setpoint (hd [?d0, ?d1]) * 0.1) [?d0, ?d1] = Some ?d0"
    by simp
  have u0: "dp_time ?d0 = 0" by simp
  note T = rise_time_zero_start [of 100 "[?p0, ?p1]" ?p0 "[?d0, ?d1]" ?d0]
  have r: "calculate_rise_time [?p0, ?p1] 100 = None"
    using T f10 t0 by blast
  have a: "\<exists>a. analyze_step_response [?d0, ?d1] = Inr (Some a) \<and> an_rise_time a = None"
    using T g10 u0 by blast
  show ?thesis
    by (rule conjI [OF f10 conjI [OF f90 conjI [OF r a]]])
qed

section \<open>The step test\<close>

lemma safety_clamp:
  "\<exists>r. py_max (Fin (- 80)) (py_min (Fin 80) out) = Fin r \<and> - 80 \<le> r \<and> r \<le> 80"
  by (cases out) (simp_all add: py_max_def py_min_def fgt_def)

lemma update_no_raise:
  assumes "py_int_float (fmul rnd (sample_time p) (Fin 1000)) = Inr thr"
    and "sample_time p \<noteq> Fin 0"
  shows "\<exists>out. snd (update rnd now x p) = Inr out"
proof (cases "ticks_diff now (last_time p) < thr")
  case True
  with assms(1) show ?thesis by (simp add: update_gated)
next
  case False
  let ?q = "fdiv rnd (fsub rnd (fsub rnd (setpoint p) x) (last_error p)) (sample_time p)"
  from assms(2) obtain d where "?q = Inr d"
    by (cases ?q) (simp_all add: fdiv_Inl_iff)
  then show ?thesis
    unfolding update_accepted [OF assms(1) False] by simp
qed

lemma step_cycle_Inr:
  assumes "step_cycle rnd enc start_time test_time c s = Inr s'"
  shows "\<exists>angle out.
      get_angle (enc\<lparr>count := ce_count c\<rparr>) = Inr angle
    \<and> update rnd (ce_update_time c) (Fin angle) (sl_pid s) = (sl_pid s', Inr out)
    \<and> sl_motor s' = sl_motor s @ [SetSpeed (py_max (Fin (- 80)) (py_min (Fin 80) out))]
    \<and> map pt_angle (sl_data s') = map pt_angle (sl_data s) @ [angle]
    \<and> sl_max_angle s' = max (sl_max_angle s) angle"
  using assms
  by (auto simp: step_cycle_def Let_def split: sum.splits prod.splits)

lemma step_cycle_ok:
  assumes "total_ppr enc \<noteq> 0"
    and "py_int_float (fmul rnd (sample_time (sl_pid s)) (Fin 1000)) = Inr thr"
    and "sample_time (sl_pid s) \<noteq> Fin 0"
  shows "\<exists>s'. step_cycle rnd enc start_time test_time c s = Inr s'
     \<and> sample_time (sl_pid s') = sample_time (sl_pid s)"
proof -
  obtain angle where a: "get_angle (enc\<lparr>count := ce_count c\<rparr>) = Inr angle"
    using assms(1) by (simp add: get_angle_def truediv_def)
  obtain p' r where u: "update rnd (ce_update_time c) (Fin angle) (sl_pid s) = (p', r)"
    by (cases "update rnd (ce_update_time c) (Fin angle) (sl_pid s)")
  from update_no_raise [OF assms(2,3), of "ce_update_time c" "Fin angle"] u
  obtain out where r: "r = Inr out" by auto
  have "sample_time p' = sample_time (sl_pid s)"
    using update_static(4) [of rnd "ce_update_time c" "Fin angle" "sl_pid s"] u by simp
  with a u r show ?thesis
    by (simp add: step_cycle_def Let_def)
qed

lemma step_cycles_motor:
  "\<forall>v. SetSpeed v \<in> set (sl_motor s) \<longrightarrow> (\<exists>r. v = Fin r \<and> - 80 \<le> r \<and> r \<le> 80) \<Longrightarrow>
   step_cycles rnd enc start_time test_time cs s = (m, res) \<Longrightarrow>
     (\<forall>v. SetSpeed v \<in> set m \<longrightarrow> (\<exists>r. v = Fin r \<and> - 80 \<le> r \<and> r \<le> 80))"
proof (induction cs arbitrary: s)
  case Nil
  then show ?case by simp
next
  case (Cons c cs)
  show ?case
  proof (cases "step_cycle rnd enc start_time test_time c s")
    case (Inl err)
    with Cons.prems show ?thesis by simp
  next
    case (Inr s')
    from step_cycle_Inr [OF Inr] obtain out where
      "sl_motor s' = sl_motor s @ [SetSpeed (py_max (Fin (- 80)) (py_min (Fin 80) out))]" by blast
    with Cons.prems(1) safety_clamp [of out]
    have "\<forall>v. SetSpeed v \<in> set (sl_motor s') \<longrightarrow> (\<exists>r. v = Fin r \<and> - 80 \<le> r \<and> r \<le> 80)"
      by auto
    moreover from Cons.prems(2) Inr
    have "step_cycles rnd enc start_time test_time cs s' = (m, res)" by simp
    ultimately show ?thesis by (rule Cons.IH)
  qed
qed

lemma step_test_motor:
  "fst (step_test rnd enc t_init t_reset start_time env Kp Ki Kd step_angle test_time) =
     fst (step_cycles rnd (reset_encoder enc) start_time test_time
            (map env [0 ..< nat (py_int (test_time * 100))])
            (step_start rnd Kp Ki Kd step_angle t_init t_reset))
   \<or> fst (step_test rnd enc t_init t_reset start_time env Kp Ki Kd step_angle test_time) =
     fst (step_cycles rnd (reset_encoder enc) start_time test_time
            (map env [0 ..< nat (py_int (test_time * 100))])
            (step_start rnd Kp Ki Kd step_angle t_init t_reset)) @ [Stop]"
  by (simp add: step_test_def Let_def split: prod.splits sum.splits)

lemma step_cycles_max:
  "step_cycles rnd enc start_time test_time cs s = (m, Inr s') \<Longrightarrow>
   sl_max_angle s = Max (insert 0 (set (map pt_angle (sl_data s)))) \<Longrightarrow>
     sl_max_angle s' = Max (insert 0 (set (map pt_angle (sl_data s')))) \<and> m = sl_motor s'"
proof (induction cs arbitrary: s)
  case Nil
  then show ?case by auto
next
  case (Cons c cs)
  show ?case
  proof (cases "step_cycle rnd enc start_time test_time c s")
    case (Inl err)
    with Cons.prems show ?thesis by simp
  next
    case (Inr s1)
    from step_cycle_Inr [OF Inr] obtain angle where
      d: "map pt_angle (sl_data s1) = map pt_angle (sl_data s) @ [angle]"
      and x: "sl_max_angle s1 = max (sl_max_angle s) angle" by blast
    have "Max (insert 0 (set (map pt_angle (sl_data s1))))
        = Max (insert angle (insert 0 (set (map pt_angle (sl_data s)))))"
      unfolding d by (simp add: insert_commute)
    also have "\<dots> = max angle (Max (insert 0 (set (map pt_angle (sl_data s)))))"
      by (rule Max_insert) simp_all
    finally have "sl_max_angle s1 = Max (insert 0 (set (map pt_angle (sl_data s1))))"
      using x Cons.prems(2) by (simp add: max.commute)
    moreover from Cons.prems(1) Inr
    have "step_cycles rnd enc start_time test_time cs s1 = (m, Inr s')" by simp
    ultimately show ?thesis by (rule Cons.IH [rotated])
  qed
qed

lemma step_cycles_ok:
  "total_ppr enc \<noteq> 0 \<Longrightarrow>
   py_int_float (fmul rnd (sample_time (sl_pid s)) (Fin 1000)) = Inr thr \<Longrightarrow>
   sample_time (sl_pid s) \<noteq> Fin 0 \<Longrightarrow>
     \<exists>s'. step_cycles rnd enc start_time test_time cs s = (sl_motor s', Inr s')
        \<and> length (sl_motor s') = length (sl_motor s) + length cs"
proof (induction cs arbitrary: s)
  case Nil
  then show ?case by simp
next
  case (Cons c cs)
  from step_cycle_ok [OF Cons.prems, of start_time test_time c] obtain s1 where
    c: "step_cycle rnd enc start_time test_time c s = Inr s1"
    and t: "sample_time (sl_pid s1) = sample_time (sl_pid s)" by blast
  from step_cycle_Inr [OF c] have l: "length (sl_motor s1) = length (sl_motor s) + 1"
    by auto
  from t Cons.prems have "py_int_float (fmul rnd (sample_time (sl_pid s1)) (Fin 1000)) = Inr thr"
    and "sample_time (sl_pid s1) \<noteq> Fin 0" by simp_all
  from Cons.IH [OF Cons.prems(1) this] c l show ?case by simp
qed

lemma overshoot_of_positive:
  "0 < step_angle \<Longrightarrow>
     overshoot_of m step_angle =
       Inr (if m > step_angle then (m - step_angle) / step_angle * 100 else 0)"
  by (simp add: overshoot_of_def truediv_def)

lemma mean_or_zero_ok: "\<exists>v. mean_or_zero rnd xs = Inr v"
proof (cases "xs = []")
  case True
  then show ?thesis by (simp add: mean_or_zero_def)
next
  case False
  then have "Fin (real (length xs)) \<noteq> Fin 0" by simp
  then obtain v where "fdiv rnd (foldl (fadd rnd) (Fin 0) xs) (Fin (real (length xs))) = Inr v"
    by (cases "fdiv rnd (foldl (fadd rnd) (Fin 0) xs) (Fin (real (length xs)))")
      (simp_all only: fdiv_Inl_iff, auto)
  with False show ?thesis by (simp add: mean_or_zero_def)
qed

lemma make_results_ok:
  "step_angle \<noteq> 0 \<Longrightarrow>
     \<exists>r. make_results rnd Kp Ki Kd step_angle s = Inr r
        \<and> overshoot_of (sl_max_angle s) step_angle = Inr (overshoot r)
        \<and> res_data r = sl_data s \<and> max_angle r = sl_max_angle s"
  using mean_or_zero_ok [of rnd "sl_steady_state_errors s"]
  by (auto simp add: make_results_def overshoot_of_def undershoot_of_def truediv_def)

lemma step_test_returns:
  assumes "total_ppr enc \<noteq> 0" "step_angle \<noteq> 0"
    and "py_int_float (fmul rnd (rnd 0.01) (Fin 1000)) = Inr thr" "rnd 0.01 \<noteq> Fin 0"
  shows "\<exists>m r. step_test rnd enc t_init t_reset start_time env Kp Ki Kd step_angle test_time
            = (m @ [Stop], Inr r)
     \<and> length m = nat (py_int (test_time * 100))
     \<and> max_angle r = Max (insert 0 (set (map pt_angle (res_data r))))
     \<and> overshoot_of (max_angle r) step_angle = Inr (overshoot r)"
proof -
  let ?s0 = "step_start rnd Kp Ki Kd step_angle t_init t_reset"
  let ?cs = "map env [0 ..< nat (py_int (test_time * 100))]"
  have e: "total_ppr (reset_encoder enc) \<noteq> 0"
    using assms(1) by (simp add: reset_encoder_def)
  have st: "sample_time (sl_pid ?s0) = rnd 0.01"
    by (simp add: step_start_def Let_def reset_def PIDController_init_def)
  from step_cycles_ok [OF e, of rnd ?s0 thr start_time test_time ?cs] assms(3,4) obtain s' where
    c: "step_cycles rnd (reset_encoder enc) start_time test_time ?cs ?s0 = (sl_motor s', Inr s')"
    and l: "length (sl_motor s') = length (sl_motor ?s0) + length ?cs"
    unfolding st by blast
  have "sl_max_angle ?s0 = Max (insert 0 (set (map pt_angle (sl_data ?s0))))"
    by (simp add: step_start_def Let_def)
  from step_cycles_max [OF c this]
  have mx: "sl_max_angle s' = Max (insert 0 (set (map pt_angle (sl_data s'))))" by simp
  from make_results_ok [OF assms(2), of rnd Kp Ki Kd s'] obtain r where
    r: "make_results rnd Kp Ki Kd step_angle s' = Inr r"
    and o: "overshoot_of (sl_max_angle s') step_angle = Inr (overshoot r)"
    and d: "res_data r = sl_data s'" and x: "max_angle r = sl_max_angle s'" by blast
  have "step_test rnd enc t_init t_reset start_time env Kp Ki Kd step_angle test_time
      = (sl_motor s' @ [Stop], Inr r)"
    using c r by (simp add: step_test_def Let_def)
  moreover have "length (sl_motor s') = nat (py_int (test_time * 100))"
    using l by (simp add: step_start_def Let_def)
  ultimately show ?thesis using mx o d x by auto
qed

text \<open>
  Every speed command a step test of the wizard sends to the motor driver is a finite
  number in the safety band from -80 to 80, whatever the gains, the target, the encoder
  readings, the clock and the rounding, also when the controller's output is NaN and also
  when the test ends in an exception. In each cycle that completes, the command sent is
  the value returned by the controller's \<open>update\<close> on the angle just read, clamped to the
  band.
\<close>

theorem motor_commands_in_safety_band:
  "(\<forall>v. SetSpeed v \<in> set (fst (step_test rnd enc t_init t_reset start_time env
                                    Kp Ki Kd step_angle test_time)) \<longrightarrow>
        (\<exists>r. v = Fin r \<and> - 80 \<le> r \<and> r \<le> 80))
   \<and> (\<forall>e c s s'. step_cycle rnd e start_time test_time c s = Inr s' \<longrightarrow>
        (\<exists>angle out. get_angle (e\<lparr>count := ce_count c\<rparr>) = Inr angle
           \<and> snd (update rnd (ce_update_time c) (Fin angle) (sl_pid s)) = Inr out
           \<and> sl_motor s' = sl_motor s @ [SetSpeed (py_max (Fin (- 80)) (py_min (Fin 80) out))]))"
proof (intro conjI allI impI)
  fix v
  assume v: "SetSpeed v \<in> set (fst (step_test rnd enc t_init t_reset start_time env
                                    Kp Ki Kd step_angle test_time))"
  let ?s0 = "step_start rnd Kp Ki Kd step_angle t_init t_reset"
  let ?run = "step_cycles rnd (reset_encoder enc) start_time test_time
      (map env [0 ..< nat (py_int (test_time * 100))]) ?s0"
  have "\<forall>v. SetSpeed v \<in> set (sl_motor ?s0) \<longrightarrow> (\<exists>r. v = Fin r \<and> - 80 \<le> r \<and> r \<le> 80)"
    by (simp add: step_start_def Let_def)
  from step_cycles_motor [OF this, of _ _ _ _ _ "fst ?run" "snd ?run"]
  have "\<forall>v. SetSpeed v \<in> set (fst ?run) \<longrightarrow> (\<exists>r. v = Fin r \<and> - 80 \<le> r \<and> r \<le> 80)" by simp
  moreover from v step_test_motor [of rnd enc t_init t_reset start_time env Kp Ki Kd step_angle test_time]
  have "SetSpeed v \<in> set (fst ?run)" by auto
  ultimately show "\<exists>r. v = Fin r \<and> - 80 \<le> r \<and> r \<le> 80" by blast
next
  fix e c s s'
  assume "step_cycle rnd e start_time test_time c s = Inr s'"
  from step_cycle_Inr [OF this]
  show "\<exists>angle out. get_angle (e\<lparr>count := ce_count c\<rparr>) = Inr angle
           \<and> snd (update rnd (ce_update_time c) (Fin angle) (sl_pid s)) = Inr out
           \<and> sl_motor s' = sl_motor s @ [SetSpeed (py_max (Fin (- 80)) (py_min (Fin 80) out))]"
    by force
qed

section \<open>Overshoot\<close>

lemma step_test_Inr:
  "step_test rnd enc t_init t_reset start_time env Kp Ki Kd step_angle test_time = (m, Inr r) \<Longrightarrow>
     \<exists>m0 s'. step_cycles rnd (reset_encoder enc) start_time test_time
                (map env [0 ..< nat (py_int (test_time * 100))])
                (step_start rnd Kp Ki Kd step_angle t_init t_reset) = (m0, Inr s')
        \<and> make_results rnd Kp Ki Kd step_angle s' = Inr r"
  by (auto simp: step_test_def Let_def split: prod.splits sum.splits)

lemma make_results_Inr:
  "make_results rnd Kp Ki Kd step_angle s = Inr r \<Longrightarrow>
     overshoot_of (sl_max_angle s) step_angle = Inr (overshoot r) \<and> res_data r = sl_data s"
  by (auto simp: make_results_def split: sum.splits)

lemma Max_insert_zero:
  "0 < (t :: real) \<Longrightarrow>
     (if Max (insert 0 (set xs)) > t then (Max (insert 0 (set xs)) - t) / t * 100 else 0)
   = (if xs \<noteq> [] \<and> Max (set xs) > t then (Max (set xs) - t) / t * 100 else 0)"
proof (cases "xs = []")
  case True
  assume "0 < t"
  with True show ?thesis by simp
next
  case False
  assume t: "0 < t"
  from False have "Max (insert 0 (set xs)) = max 0 (Max (set xs))"
    by (simp add: Max_insert)
  with t False show ?thesis by (auto simp: max_def)
qed

lemma mean_of_constant:
  "xs \<noteq> [] \<Longrightarrow> \<forall>x \<in> set xs. f x = (c :: real) \<Longrightarrow>
     sum_list (map f xs) / real (length xs) = c"
proof -
  assume ne: "xs \<noteq> []" and all: "\<forall>x \<in> set xs. f x = c"
  have "sum_list (map f xs) = real (length xs) * c"
    using all by (induction xs) (simp_all add: algebra_simps)
  with ne show ?thesis by simp
qed

text \<open>
  C7 (as amended). For a target above 0, the overshoot of a step test that returns results
  is \<open>(max_sample - target) / target * 100\<close> when the largest recorded angle exceeds the
  target and 0 otherwise, and the test does return results when the encoder's \<open>total_ppr\<close>
  is not 0 (the default sample time 0.01 being, as a float, not 0 and a finite number of
  milliseconds). The analyzer reports the signed value
  \<open>(max_sample - target) / target * 100\<close> for every target other than 0, with no floor at 0,
  and its steady-state value is \<open>c\<close> when every sample of the final window is \<open>c\<close>. For
  samples rising from 0 to 99 and then flat at 99 with target 90 (the witness) the overshoot
  is 10 and the steady-state value 99.
\<close>

theorem overshoot_percentage:
  "0 < step_angle \<Longrightarrow>
     (\<forall>m r. step_test rnd enc t_init t_reset start_time env Kp Ki Kd step_angle test_time
               = (m, Inr r) \<longrightarrow>
        overshoot r =
          (if res_data r \<noteq> [] \<and> Max (set (map pt_angle (res_data r))) > step_angle
           then (Max (set (map pt_angle (res_data r))) - step_angle) / step_angle * 100
           else 0))
   \<and> (total_ppr enc \<noteq> 0 \<and> rnd 0.01 \<noteq> Fin 0
        \<and> (\<exists>thr. py_int_float (fmul rnd (rnd 0.01) (Fin 1000)) = Inr thr) \<longrightarrow>
        (\<exists>m r. step_test rnd enc t_init t_reset start_time env Kp Ki Kd step_angle test_time
                  = (m, Inr r)))
   \<and> (ds \<noteq> [] \<and> dp_setpoint (hd ds) \<noteq> 0 \<longrightarrow>
        (\<exists>a. analyze_step_response ds = Inr (Some a)
           \<and> an_overshoot a =
               (Max (set (map dp_actual ds)) - dp_setpoint (hd ds)) / dp_setpoint (hd ds) * 100))
   \<and> (ds \<noteq> [] \<and> (\<forall>d \<in> set (slice_from (- (int (length ds) div 10)) ds). dp_actual d = c) \<longrightarrow>
        (\<exists>a. analyze_step_response ds = Inr (Some a) \<and> steady_state_value a = c))"
proof -
  assume pos: "0 < step_angle"
  have a: "\<forall>m r. step_test rnd enc t_init t_reset start_time env Kp Ki Kd step_angle test_time
               = (m, Inr r) \<longrightarrow>
        overshoot r =
          (if res_data r \<noteq> [] \<and> Max (set (map pt_angle (res_data r))) > step_angle
           then (Max (set (map pt_angle (res_data r))) - step_angle) / step_angle * 100
           else 0)"
  proof (intro allI impI)
    fix m r
    assume "step_test rnd enc t_init t_reset start_time env Kp Ki Kd step_angle test_time = (m, Inr r)"
    from step_test_Inr [OF this] obtain m0 s' where
      c: "step_cycles rnd (reset_encoder enc) start_time test_time
            (map env [0 ..< nat (py_int (test_time * 100))])
            (step_start rnd Kp Ki Kd step_angle t_init t_reset) = (m0, Inr s')"
      and mr: "make_results rnd Kp Ki Kd step_angle s' = Inr r" by blast
    have "sl_max_angle (step_start rnd Kp Ki Kd step_angle t_init t_reset)
        = Max (insert 0 (set (map pt_angle (sl_data (step_start rnd Kp Ki Kd step_angle t_init t_reset)))))"
      by (simp add: step_start_def Let_def)
    from step_cycles_max [OF c this]
    have mx: "sl_max_angle s' = Max (insert 0 (set (map pt_angle (sl_data s'))))" by simp
    from make_results_Inr [OF mr]
    have o: "overshoot_of (sl_max_angle s') step_angle = Inr (overshoot r)"
      and d: "res_data r = sl_data s'" by simp_all
    from o have "overshoot r =
        (if sl_max_angle s' > step_angle then (sl_max_angle s' - step_angle) / step_angle * 100
         else 0)"
      unfolding overshoot_of_positive [OF pos] by simp
    also have "\<dots> =
        (if map pt_angle (sl_data s') \<noteq> [] \<and> Max (set (map pt_angle (sl_data s'))) > step_angle
         then (Max (set (map pt_angle (sl_data s'))) - step_angle) / step_angle * 100 else 0)"
      unfolding mx by (rule Max_insert_zero [OF pos])
    finally show "overshoot r =
          (if res_data r \<noteq> [] \<and> Max (set (map pt_angle (res_data r))) > step_angle
           then (Max (set (map pt_angle (res_data r))) - step_angle) / step_angle * 100
           else 0)"
      unfolding d by simp
  qed
  have b: "total_ppr enc \<noteq> 0 \<and> rnd 0.01 \<noteq> Fin 0
        \<and> (\<exists>thr. py_int_float (fmul rnd (rnd 0.01) (Fin 1000)) = Inr thr) \<longrightarrow>
        (\<exists>m r. step_test rnd enc t_init t_reset start_time env Kp Ki Kd step_angle test_time
                  = (m, Inr r))"
  proof
    assume h: "total_ppr enc \<noteq> 0 \<and> rnd 0.01 \<noteq> Fin 0
        \<and> (\<exists>thr. py_int_float (fmul rnd (rnd 0.01) (Fin 1000)) = Inr thr)"
    then obtain thr where t: "py_int_float (fmul rnd (rnd 0.01) (Fin 1000)) = Inr thr"
      and e: "total_ppr enc \<noteq> 0" and z: "rnd 0.01 \<noteq> Fin 0" by blast
    from pos have "step_angle \<noteq> 0" by simp
    from step_test_returns [OF e this t z, of t_init t_reset start_time env Kp Ki Kd test_time]
    show "\<exists>m r. step_test rnd enc t_init t_reset start_time env Kp Ki Kd step_angle test_time
                  = (m, Inr r)"
      by blast
  qed
  have c: "ds \<noteq> [] \<and> dp_setpoint (hd ds) \<noteq> 0 \<longrightarrow>
        (\<exists>a. analyze_step_response ds = Inr (Some a)
           \<and> an_overshoot a =
               (Max (set (map dp_actual ds)) - dp_setpoint (hd ds)) / dp_setpoint (hd ds) * 100)"
  proof
    assume h: "ds \<noteq> [] \<and> dp_setpoint (hd ds) \<noteq> 0"
    then have ne: "ds \<noteq> []" by simp
    show "\<exists>a. analyze_step_response ds = Inr (Some a)
           \<and> an_overshoot a =
               (Max (set (map dp_actual ds)) - dp_setpoint (hd ds)) / dp_setpoint (hd ds) * 100"
      unfolding analyze_step_response_returns [OF ne] using h by simp
  qed
  have d: "ds \<noteq> [] \<and> (\<forall>d \<in> set (slice_from (- (int (length ds) div 10)) ds). dp_actual d = c) \<longrightarrow>
        (\<exists>a. analyze_step_response ds = Inr (Some a) \<and> steady_state_value a = c)"
  proof
    assume h: "ds \<noteq> [] \<and> (\<forall>d \<in> set (slice_from (- (int (length ds) div 10)) ds). dp_actual d = c)"
    then have ne: "ds \<noteq> []" by simp
    from h have "sum_list (map dp_actual (slice_from (- (int (length ds) div 10)) ds))
        / real (length (slice_from (- (int (length ds) div 10)) ds)) = c"
      using mean_of_constant [OF slice_from_nonempty [OF ne], of dp_actual c] by blast
    then show "\<exists>a. analyze_step_response ds = Inr (Some a) \<and> steady_state_value a = c"
      unfolding analyze_step_response_returns [OF ne] by simp
  qed
  show ?thesis
    by (rule conjI [OF a conjI [OF b conjI [OF c d]]])
qed


theorem overshoot_percentage_witness:
  "(0 :: real) < 90
   \<and> total_ppr (EncoderReader_init False False 0 360 1) \<noteq> 0
   \<and> no_rounding 0.01 \<noteq> Fin 0
   \<and> py_int_float (fmul no_rounding (no_rounding 0.01) (Fin 1000)) = Inr 10
   \<and> (\<exists>m r. step_test no_rounding (EncoderReader_init False False 0 360 1) 0 0 0
                (env_of_counts [0, 50, 99, 99]) (Fin 2) (Fin 0) (Fin 0) 90 0.04 = (m, Inr r)
          \<and> map pt_angle (res_data r) = [0, 50, 99, 99] \<and> overshoot r = 10)
   \<and> (\<exists>a. analyze_step_response
        (map (\<lambda>(t, x). \<lparr>dp_time = t, dp_setpoint = 90, dp_actual = x, dp_error = Fin (90 - x),
                          dp_output = Fin 0\<rparr>)
           [(0, 0), (1, 33), (2, 66), (3, 99), (4, 99), (5, 99), (6, 99), (7, 99), (8, 99), (9, 99)])
        = Inr (Some a) \<and> an_overshoot a = 10)
   \<and> (\<exists>a. analyze_step_response
        (map (\<lambda>(t, x). \<lparr>dp_time = t, dp_setpoint = 90, dp_actual = x, dp_error = Fin (90 - x),
                          dp_output = Fin 0\<rparr>)
           [(0, 0), (1, 33), (2, 66), (3, 99), (4, 99), (5, 99), (6, 99), (7, 99), (8, 99), (9, 99)])
        = Inr (Some a) \<and> steady_state_value a = 99)"
proof -
  let ?enc = "EncoderReader_init False False 0 360 1"
  let ?run = "step_test no_rounding ?enc 0 0 0 (env_of_counts [0, 50, 99, 99])
      (Fin 2) (Fin 0) (Fin 0) 90 0.04"
  let ?ds = "map (\<lambda>(t, x). \<lparr>dp_time = t, dp_setpoint = 90, dp_actual = x, dp_error = Fin (90 - x),
                          dp_output = Fin 0\<rparr>)
           [(0, 0), (1, 33), (2, 66), (3, 99), (4, 99), (5, 99), (6, 99), (7, 99), (8, 99), (9, 99)]"
  have pos: "(0 :: real) < 90" by simp
  have ppr: "total_ppr ?enc \<noteq> 0" by (simp add: EncoderReader_init_def)
  have nz: "no_rounding 0.01 \<noteq> Fin 0" by (simp add: no_rounding_small)
  have thr: "py_int_float (fmul no_rounding (no_rounding 0.01) (Fin 1000)) = Inr 10"
    by (simp add: no_rounding_small py_int_def)
  note T = overshoot_percentage [OF pos, of no_rounding ?enc 0 0 0 "env_of_counts [0, 50, 99, 99]"
      "Fin 2" "Fin 0" "Fin 0" "0.04" ?ds 99]
  have upt4: "[0..<4] = [0, 1, 2, 3]" by (simp add: upt_rec)
  have ev: "(case snd ?run of Inl e \<Rightarrow> [] | Inr r \<Rightarrow> map pt_angle (res_data r)) = [0, 50, 99, 99]"
    by (simp add: step_test_def step_start_def step_cycle_def get_angle_def truediv_def
        update_def PIDController_init_def EncoderReader_init_def reset_def reset_encoder_def
        env_of_counts_def ticks_diff_def TICKS_PERIOD_def py_int_def Let_def make_results_def
        overshoot_of_def undershoot_of_def mean_or_zero_def upt4
        no_rounding_small fsub_def fgt_def py_max_def py_min_def)
  have ex: "\<exists>thr. py_int_float (fmul no_rounding (no_rounding 0.01) (Fin 1000)) = Inr thr"
    using thr by blast
  from T [THEN conjunct2, THEN conjunct1, rule_format, OF conjI [OF ppr conjI [OF nz ex]]]
  obtain m r where run: "?run = (m, Inr r)" by blast
  with ev have angles: "map pt_angle (res_data r) = [0, 50, 99, 99]" by simp
  from T [THEN conjunct1, rule_format, OF run] have "overshoot r =
      (if res_data r \<noteq> [] \<and> Max (set (map pt_angle (res_data r))) > 90
       then (Max (set (map pt_angle (res_data r))) - 90) / 90 * 100 else 0)" .
  also have "\<dots> = 10"
    unfolding angles using angles by auto
  finally have ov: "overshoot r = 10" .
  have A: "\<exists>m r. ?run = (m, Inr r) \<and> map pt_angle (res_data r) = [0, 50, 99, 99] \<and> overshoot r = 10"
    by (intro exI conjI) (rule run, rule angles, rule ov)
  have ne: "?ds \<noteq> []" and sp: "dp_setpoint (hd ?ds) \<noteq> 0" by simp_all
  have mx: "(Max (set (map dp_actual ?ds)) - dp_setpoint (hd ?ds)) / dp_setpoint (hd ?ds) * 100 = 10"
    by simp
  from T [THEN conjunct2, THEN conjunct2, THEN conjunct1, rule_format, OF conjI [OF ne sp]]
  have "\<exists>a. analyze_step_response ?ds = Inr (Some a)
      \<and> an_overshoot a
          = (Max (set (map dp_actual ?ds)) - dp_setpoint (hd ?ds)) / dp_setpoint (hd ?ds) * 100" .
  then have B: "\<exists>a. analyze_step_response ?ds = Inr (Some a) \<and> an_overshoot a = 10"
    unfolding mx .
  have flat: "\<forall>d \<in> set (slice_from (- (int (length ?ds) div 10)) ?ds). dp_actual d = 99"
    by (simp add: slice_from_def)
  from T [THEN conjunct2, THEN conjunct2, THEN conjunct2, rule_format, OF conjI [OF ne flat]]
  have C: "\<exists>a. analyze_step_response ?ds = Inr (Some a) \<and> steady_state_value a = 99" .
  show ?thesis
    by (rule conjI [OF pos conjI [OF ppr conjI [OF nz conjI [OF thr conjI [OF A conjI [OF B C]]]]]])
qed

text \<open>
  C7 as stated fails. In a step test with target -90 whose samples are all -45, the largest
  sample exceeds the target and the stated formula gives -50, but the overshoot computed is
  -100 (the running maximum starts at 0). In the analyzer, one sample 45 with target 90 has
  its largest sample below the target, and the overshoot computed is -50, not 0.
\<close>

theorem overshoot_counterexample:
  "(case snd (step_test no_rounding (EncoderReader_init False False 0 360 1) 0 0 0
                (env_of_counts [- 45, - 45]) (Fin 2) (Fin 0) (Fin 0) (- 90) 0.02) of
      Inl e \<Rightarrow> False
    | Inr r \<Rightarrow> map pt_angle (res_data r) = [- 45, - 45] \<and> overshoot r = - 100)
   \<and> (if Max (set [- 45, - 45 :: real]) > - 90
       then (Max (set [- 45, - 45 :: real]) - (- 90)) / (- 90) * 100 else 0) = - 50
   \<and> analyze_step_response
        [\<lparr>dp_time = 0, dp_setpoint = 90, dp_actual = 45, dp_error = Fin 45, dp_output = Fin 90\<rparr>]
      = Inr (Some \<lparr>steady_state_value = 45, an_overshoot = - 50,
                    an_steady_state_error = 45, an_rise_time = None\<rparr>)"
proof -
  have upt2: "[0..<2] = [0, 1]" by (simp add: upt_rec)
  have a: "(case snd (step_test no_rounding (EncoderReader_init False False 0 360 1) 0 0 0
                (env_of_counts [- 45, - 45]) (Fin 2) (Fin 0) (Fin 0) (- 90) 0.02) of
      Inl e \<Rightarrow> False
    | Inr r \<Rightarrow> map pt_angle (res_data r) = [- 45, - 45] \<and> overshoot r = - 100)"
    by (simp add: step_test_def step_start_def step_cycle_def get_angle_def truediv_def
        update_def PIDController_init_def EncoderReader_init_def reset_def reset_encoder_def
        env_of_counts_def ticks_diff_def TICKS_PERIOD_def py_int_def Let_def make_results_def
        overshoot_of_def undershoot_of_def mean_or_zero_def upt2
        no_rounding_small fsub_def fgt_def py_max_def py_min_def)
  have b: "(if Max (set [- 45, - 45 :: real]) > - 90
       then (Max (set [- 45, - 45 :: real]) - (- 90)) / (- 90) * 100 else 0) = - 50"
    by simp
  have c: "analyze_step_response
        [\<lparr>dp_time = 0, dp_setpoint = 90, dp_actual = 45, dp_error = Fin 45, dp_output = Fin 90\<rparr>]
      = Inr (Some \<lparr>steady_state_value = 45, an_overshoot = - 50,
                    an_steady_state_error = 45, an_rise_time = None\<rparr>)"
    by (simp add: analyze_step_response_def slice_from_def truediv_def truthy_def Let_def)
  show ?thesis
    by (rule conjI [OF a conjI [OF b c]])
qed

section \<open>The tuner's experiment\<close>

text \<open>
  C8 (the code breaks it). The tuner's \<open>auto_tune_step_response\<close> with \<open>kp = 2\<close>,
  \<open>ki = kd = 0\<close>, the default limits of -100 and 100, the shaft at angle 0 and a step of 90:
  the one cycle of the experiment sends the controller's output 100 to the motor, outside
  the band from -80 to 80 that \<open>step_test\<close> clamps to; on the same readings \<open>step_test\<close>
  sends 80.
\<close>

theorem auto_tune_unclamped_failing:
  "fst (auto_tune_step_response no_rounding
          (PIDController_init no_rounding (Fin 2) (Fin 0) (Fin 0) (Fin 0) (Fin (- 100)) (Fin 100)
             (Fin 0.01) 0)
          (EncoderReader_init False False 0 360 1) 0
          [\<lparr>te_loop_time = 10, te_count = 0, te_record_time = 10, te_update_time = 10\<rparr>,
           \<lparr>te_loop_time = 20, te_count = 0, te_record_time = 20, te_update_time = 20\<rparr>]
          90 0.02)
     = [SetSpeed (Fin 100), Stop]
   \<and> \<not> (100 :: real) \<le> 80
   \<and> fst (step_test no_rounding (EncoderReader_init False False 0 360 1) 0 0 0
            (env_of_counts [0]) (Fin 2) (Fin 0) (Fin 0) 90 0.01)
     = [SetSpeed (Fin 80), Stop]"
proof -
  have upt1: "[0..<1] = [0]" by simp
  have a: "fst (auto_tune_step_response no_rounding
          (PIDController_init no_rounding (Fin 2) (Fin 0) (Fin 0) (Fin 0) (Fin (- 100)) (Fin 100)
             (Fin 0.01) 0)
          (EncoderReader_init False False 0 360 1) 0
          [\<lparr>te_loop_time = 10, te_count = 0, te_record_time = 10, te_update_time = 10\<rparr>,
           \<lparr>te_loop_time = 20, te_count = 0, te_record_time = 20, te_update_time = 20\<rparr>]
          90 0.02)
     = [SetSpeed (Fin 100), Stop]"
    by (simp add: auto_tune_step_response_def get_angle_def truediv_def update_def
        PIDController_init_def EncoderReader_init_def set_setpoint_def
        ticks_diff_def TICKS_PERIOD_def py_int_def Let_def analyze_step_response_def
        slice_from_def truthy_def no_rounding_small fsub_def fgt_def)
  have b: "fst (step_test no_rounding (EncoderReader_init False False 0 360 1) 0 0 0
            (env_of_counts [0]) (Fin 2) (Fin 0) (Fin 0) 90 0.01)
     = [SetSpeed (Fin 80), Stop]"
    by (simp add: step_test_def step_start_def step_cycle_def get_angle_def truediv_def
        update_def PIDController_init_def EncoderReader_init_def reset_def reset_encoder_def
        env_of_counts_def ticks_diff_def TICKS_PERIOD_def py_int_def Let_def make_results_def
        overshoot_of_def undershoot_of_def mean_or_zero_def upt1
        no_rounding_small fsub_def fgt_def py_max_def py_min_def)
  show ?thesis using a b by simp
qed

end
